theory Spec2Isabelle
  imports Main "HOL-Library.AList"
begin

section \<open>Values, objects and the world\<close>

text \<open>
  Entities are caller-owned objects: an object has the list of its own properties, in
  the order of definition, with distinct keys, and it may have been frozen
  (\<^verbatim>\<open>Object.freeze\<close>). A value is a tree, so copying the properties of an object is a deep
  copy. \<open>JFun\<close> stands for a function, the kind of value \<^verbatim>\<open>structuredClone\<close> refuses to
  copy. Objects live in a store and are passed by reference: the identity of an object
  is its reference, its content is what the store holds there.
\<close>

datatype jsval =
    JUndefined
  | JNull
  | JBool bool
  | JNum int
  | JStr string
  | JArr "jsval list"
  | JObj "(string \<times> jsval) list"
  | JFun

record obj =
  props :: "(string \<times> jsval) list"
  frozen :: bool

type_synonym ref = nat
type_synonym date = nat

text \<open>What the structured clone algorithm accepts: any value with no function inside.\<close>

fun cloneable :: "jsval \<Rightarrow> bool" where
  "cloneable JFun = False"
| "cloneable (JArr vs) = list_all cloneable vs"
| "cloneable (JObj fs) = list_all (\<lambda>kv. cloneable (snd kv)) fs"
| "cloneable _ = True"

text \<open>Property read with optional chaining, as in \<^verbatim>\<open>context?.actor\<close>.\<close>

fun js_prop :: "jsval \<Rightarrow> string \<Rightarrow> jsval" where
  "js_prop (JObj fs) k = (case map_of fs k of Some v \<Rightarrow> v | None \<Rightarrow> JUndefined)"
| "js_prop _ k = JUndefined"

subsection \<open>errors.ts\<close>

text \<open>
  \<^verbatim>\<open>TransitionParams\<close>. For the timestamp the record tells a key that is absent (\<open>None\<close>)
  from a key that is present, with a date or with \<^verbatim>\<open>undefined\<close> (\<open>Some None\<close>): the
  constructors of the signals treat the two differently.
\<close>

record transition_params =
  tp_from :: "string option"
  tp_to :: "string option"
  tp_message :: "string option"
  tp_timestamp :: "date option option"
  tp_meta :: jsval

text \<open>
  The thrown values: the two signals of errors.ts, each with its message and its
  \<^verbatim>\<open>details\<close>, the generic \<^verbatim>\<open>Error\<close>, the \<^verbatim>\<open>TypeError\<close> the runtime raises on a
  property read of \<^verbatim>\<open>undefined\<close> or on an assignment to a frozen object, and the
  \<^verbatim>\<open>DataCloneError\<close> \<^verbatim>\<open>structuredClone\<close> raises. The wording of the runtime's messages
  is the runtime's own and is kept short here.
\<close>

datatype error =
    AbortTransition string transition_params
  | InvalidTransition string transition_params
  | Error string
  | TypeError string
  | DataCloneError string

fun message :: "error \<Rightarrow> string" where
  "message (AbortTransition m d) = m"
| "message (InvalidTransition m d) = m"
| "message (Error m) = m"
| "message (TypeError m) = m"
| "message (DataCloneError m) = m"

fun is_AbortTransition :: "error \<Rightarrow> bool" where
  "is_AbortTransition (AbortTransition m d) = True"
| "is_AbortTransition _ = False"

fun is_InvalidTransition :: "error \<Rightarrow> bool" where
  "is_InvalidTransition (InvalidTransition m d) = True"
| "is_InvalidTransition _ = False"

text \<open>\<^verbatim>\<open>params.message || dflt\<close>: an absent or empty message gives the default.\<close>

definition message_or :: "string option \<Rightarrow> string \<Rightarrow> string" where
  "message_or m dflt = (case m of None \<Rightarrow> dflt | Some s \<Rightarrow> if s = [] then dflt else s)"

text \<open>
  The constructors of the two signals. \<open>now\<close> is the value of \<^verbatim>\<open>new Date()\<close>.
  \<^verbatim>\<open>{timestamp: params.timestamp ?? new Date(), ...params}\<close>: the spread comes last, so
  a \<^verbatim>\<open>timestamp\<close> key of the parameters wins, also when its value is \<^verbatim>\<open>undefined\<close>; only
  when the key is absent does the date of construction stay.
\<close>

definition details_of :: "transition_params \<Rightarrow> date \<Rightarrow> transition_params" where
  "details_of params now =
     params\<lparr>tp_timestamp := Some (case tp_timestamp params of Some t \<Rightarrow> t | None \<Rightarrow> Some now)\<rparr>"

definition new_AbortTransition :: "transition_params \<Rightarrow> date \<Rightarrow> error" where
  "new_AbortTransition params now =
     AbortTransition (message_or (tp_message params) ''Aborting transition'') (details_of params now)"

definition new_InvalidTransition :: "transition_params \<Rightarrow> date \<Rightarrow> error" where
  "new_InvalidTransition params now =
     InvalidTransition (message_or (tp_message params) ''Invalid transition'') (details_of params now)"

subsection \<open>types.ts\<close>

record transition_payload =
  p_from :: string
  p_to :: string
  p_actor :: jsval
  p_meta :: jsval
  p_timestamp :: date

text \<open>The object literal built in the catch block for each handler.\<close>

record error_payload =
  ep_from :: string
  ep_to :: string
  ep_message :: string
  ep_timestamp :: date
  ep_meta :: jsval

text \<open>
  Hooks are caller code, modelled by what the engine can observe of a call.
  \<^item> An edge hook (\<^verbatim>\<open>onBefore\<close>, \<^verbatim>\<open>onAfter\<close>) receives the entity: it returns the
    object as it leaves it (its properties, and whether it is frozen) and the error
    it throws or its promise rejects with, if any.
  \<^item> A global hook receives the payload. Either the call itself throws (\<open>Inl e\<close>), or
    it returns a promise (\<open>Inr\<close>): \<open>None\<close> when that fulfils, \<open>Some (t, e)\<close> when it
    rejects with \<open>e\<close> at time \<open>t\<close>.
  \<^item> A handler of the catch block is called synchronously and not awaited:
    \<open>Some e\<close> when it throws \<open>e\<close>.
  \<^item> The \<^verbatim>\<open>onAbort\<close> slot holds either a function of the caller or the closure the
    constructor creates, which remembers the two state names of its edge.

  Every hook is taken to settle, and a call is followed on its own: nothing else runs
  while it awaits a hook. A hook acts on what it is passed: an edge hook on the
  entity, a global hook or a handler on nothing the engine reads; no hook changes the
  configuration. The listener registry of the class (\<^verbatim>\<open>on\<close>, \<^verbatim>\<open>emit\<close>) takes no part in
  \<^verbatim>\<open>transition\<close> and is left out.
\<close>

type_synonym event_handler = "obj \<Rightarrow> obj \<times> error option"
type_synonym transition_handler = "transition_payload \<Rightarrow> error + (nat \<times> error) option"
type_synonym invalid_transition_handler = "error_payload \<Rightarrow> error option"
type_synonym error_transition_handler = "error \<Rightarrow> error_payload \<Rightarrow> error option"

datatype abort_handler =
    Supplied "error_payload \<Rightarrow> error option"
  | DefaultOnAbort string string

record transition_config =
  isAbortable :: "bool option"
  onBefore :: "event_handler option"
  onAbort :: "abort_handler option"
  onAfter :: "event_handler option"
  details :: "(string \<times> string \<times> string) option"

text \<open>
  An object literal keyed by state name is an association list with distinct keys, in
  the order of definition (the order of \<^verbatim>\<open>Object.keys\<close>). An edge is an object of its
  own, which the constructor writes to: a row holds references to its edges, and two
  entries may hold the same one. The rows and the record of rows are only ever read.
\<close>

type_synonym row_refs = "(string \<times> ref) list"
type_synonym table_refs = "(string \<times> row_refs) list"

text \<open>The same with every reference followed, which is what the lookups find.\<close>

type_synonym row = "(string \<times> transition_config) list"
type_synonym table = "(string \<times> row) list"

record global_hooks =
  beforeTransition :: "transition_handler list option"
  afterTransition :: "transition_handler list option"
  onInvalidTransition :: "invalid_transition_handler option"
  onError :: "error_transition_handler option"

text \<open>
  \<^verbatim>\<open>transitions\<close> is a reference: the configuration object holds the transitions record
  of the caller, not a copy of it.
\<close>

record machine_config =
  initialState :: string
  stateKey :: "string option"
  transitions :: ref
  globalHooks :: "global_hooks option"

record normalized_config =
  n_initialState :: string
  n_stateKey :: string
  n_transitions :: ref
  n_globalHooks :: "global_hooks option"

record state_machine =
  config :: normalized_config

subsection \<open>The world a call runs in\<close>

text \<open>What the engine does that an observer can see, in the order it does it.\<close>

datatype event =
    OnBeforeCalled ref
  | BeforeTransitionCalled nat transition_payload
  | StateWritten ref string string
  | OnAfterCalled ref
  | AfterTransitionCalled nat transition_payload
  | OnInvalidTransitionCalled error_payload
  | OnAbortCalled error_payload
  | OnErrorCalled error error_payload
  | ConsoleLog string "error option"

text \<open>
  \<^item> \<open>objects\<close>: the entity objects by reference; \<open>next_ref\<close> is the first
    reference not yet allocated.
  \<^item> \<open>tables\<close>: the transitions records by reference; \<open>edges\<close>: the edge objects by
    reference.
  \<^item> \<open>events\<close>: the actions of the engine so far.
  \<^item> \<open>clock\<close>: the value the \<open>n\<close>-th \<^verbatim>\<open>new Date()\<close> returns; \<open>ticks\<close> counts the
    reads so far.
\<close>

record world =
  objects :: "ref \<Rightarrow> obj"
  next_ref :: ref
  tables :: "ref \<Rightarrow> table_refs"
  edges :: "ref \<Rightarrow> transition_config"
  events :: "event list"
  clock :: "nat \<Rightarrow> date"
  ticks :: nat

definition emit :: "event \<Rightarrow> world \<Rightarrow> world" where
  "emit ev w = w\<lparr>events := events w @ [ev]\<rparr>"

definition new_Date :: "world \<Rightarrow> date \<times> world" where
  "new_Date w = (clock w (ticks w), w\<lparr>ticks := Suc (ticks w)\<rparr>)"

text \<open>
  \<^verbatim>\<open>structuredClone(x)\<close> for the object \<open>r\<close> refers to: a new object with the same
  properties, not frozen whatever the original is, or a \<^verbatim>\<open>DataCloneError\<close> when some
  property holds a value that cannot be cloned.
\<close>

definition copy_of :: "obj \<Rightarrow> obj" where
  "copy_of ob = \<lparr>props = props ob, frozen = False\<rparr>"

definition structuredClone :: "ref \<Rightarrow> world \<Rightarrow> (error + ref) \<times> world" where
  "structuredClone r w =
     (if list_all (\<lambda>kv. cloneable (snd kv)) (props (objects w r))
      then (Inr (next_ref w),
            w\<lparr>objects := (objects w)(next_ref w := copy_of (objects w r)),
              next_ref := Suc (next_ref w)\<rparr>)
      else (Inl (DataCloneError ''The object could not be cloned.''), w))"

text \<open>
  \<^verbatim>\<open>x[k] = v\<close> in a module, which is strict code: on a frozen object the assignment throws
  a \<^verbatim>\<open>TypeError\<close>; otherwise an own property keeps its place and a new one goes last.
\<close>

definition set_field :: "ref \<Rightarrow> string \<Rightarrow> jsval \<Rightarrow> world \<Rightarrow> error option \<times> world" where
  "set_field r k v w =
     (if frozen (objects w r)
      then (Some (TypeError ''Cannot assign to read only property''), w)
      else (None,
            w\<lparr>objects :=
                (objects w)(r := (objects w r)\<lparr>props := AList.update k v (props (objects w r))\<rparr>)\<rparr>))"

text \<open>
  A transitions record as the store holds it. No statement of \<^verbatim>\<open>transition\<close> writes to
  a row or an edge, so a call reads the record as it is when the call starts.
\<close>

definition row_view :: "world \<Rightarrow> row_refs \<Rightarrow> row" where
  "row_view w rw = map (\<lambda>(nS, er). (nS, edges w er)) rw"

definition table_view :: "world \<Rightarrow> ref \<Rightarrow> table" where
  "table_view w r = map (\<lambda>(tK, rw). (tK, row_view w rw)) (tables w r)"

subsection \<open>Property lookup on an object literal\<close>

text \<open>
  A row of the table is an object literal, so besides its own keys it answers to the
  property names every object inherits from \<^verbatim>\<open>Object.prototype\<close>. The \<^verbatim>\<open>in\<close> operator
  and a property read both see them; \<^verbatim>\<open>Object.keys\<close> does not.
\<close>

definition object_prototype_names :: "string list" where
  "object_prototype_names =
     [''constructor'', ''hasOwnProperty'', ''isPrototypeOf'', ''propertyIsEnumerable'',
      ''toLocaleString'', ''toString'', ''valueOf'', ''__proto__'',
      ''__defineGetter__'', ''__defineSetter__'', ''__lookupGetter__'', ''__lookupSetter__'']"

datatype 'a lookup = Own 'a | Inherited | Undefined

definition js_in :: "string \<Rightarrow> (string \<times> 'a) list \<Rightarrow> bool" where
  "js_in k ob = (k \<in> set (map fst ob) \<or> k \<in> set object_prototype_names)"

definition js_get :: "(string \<times> 'a) list \<Rightarrow> string \<Rightarrow> 'a lookup" where
  "js_get ob k =
     (case map_of ob k of
        Some v \<Rightarrow> Own v
      | None \<Rightarrow> if k \<in> set object_prototype_names then Inherited else Undefined)"

text \<open>
  Reading a property of \<^verbatim>\<open>nextTransition\<close>: a declared edge gives its field, an inherited
  member has no such property, and \<^verbatim>\<open>undefined\<close> raises.
\<close>

definition edge_prop ::
  "(transition_config \<Rightarrow> 'b option) \<Rightarrow> transition_config lookup \<Rightarrow> error + 'b option" where
  "edge_prop field nt =
     (case nt of
        Own c \<Rightarrow> Inr (field c)
      | Inherited \<Rightarrow> Inr None
      | Undefined \<Rightarrow> Inl (TypeError ''Cannot read properties of undefined''))"

text \<open>\<^verbatim>\<open>nextTransition?.isAbortable\<close>, tested for truth.\<close>

definition abortable :: "transition_config lookup \<Rightarrow> bool" where
  "abortable nt = (case nt of Own c \<Rightarrow> isAbortable c = Some True | _ \<Rightarrow> False)"

section \<open>The constructor\<close>

text \<open>
  The body of the inner \<^verbatim>\<open>forEach\<close>, for the edge \<^verbatim>\<open>config.transitions[tK][nS]\<close>, and the
  two loops over \<^verbatim>\<open>Object.keys\<close>. Each step writes into the edge object the entry refers
  to.
\<close>

definition install_default :: "string \<Rightarrow> string \<Rightarrow> transition_config \<Rightarrow> transition_config" where
  "install_default tK nS c =
     (if isAbortable c = Some True \<and> onAbort c = None
      then c\<lparr>onAbort := Some (DefaultOnAbort tK nS)\<rparr>
      else c)"

fun forEach_nextStates ::
  "string \<Rightarrow> row_refs \<Rightarrow> (ref \<Rightarrow> transition_config) \<Rightarrow> (ref \<Rightarrow> transition_config)" where
  "forEach_nextStates tK [] es = es"
| "forEach_nextStates tK ((nS, er) # rest) es =
     forEach_nextStates tK rest (es(er := install_default tK nS (es er)))"

fun forEach_transitionKeys ::
  "table_refs \<Rightarrow> (ref \<Rightarrow> transition_config) \<Rightarrow> (ref \<Rightarrow> transition_config)" where
  "forEach_transitionKeys [] es = es"
| "forEach_transitionKeys ((tK, rw) # rest) es =
     forEach_transitionKeys rest (forEach_nextStates tK rw es)"

text \<open>
  The loops write into the edges \<^verbatim>\<open>config.transitions\<close> leads to; \<^verbatim>\<open>this.config\<close> is a new
  object that spreads \<^verbatim>\<open>config\<close>, so it holds the same reference to the same record.
\<close>

definition constructor :: "machine_config \<Rightarrow> world \<Rightarrow> state_machine \<times> world" where
  "constructor cfg w =
     (\<lparr>config =
         \<lparr>n_initialState = initialState cfg,
          n_stateKey = (case stateKey cfg of Some k \<Rightarrow> k | None \<Rightarrow> ''status''),
          n_transitions = transitions cfg,
          n_globalHooks = globalHooks cfg\<rparr>\<rparr>,
      w\<lparr>edges := forEach_transitionKeys (tables w (transitions cfg)) (edges w)\<rparr>)"

text \<open>Calling what the \<^verbatim>\<open>onAbort\<close> slot holds.\<close>

fun call_onAbort :: "abort_handler \<Rightarrow> error_payload \<Rightarrow> world \<Rightarrow> error option \<times> world" where
  "call_onAbort (Supplied f) p w = (f p, w)"
| "call_onAbort (DefaultOnAbort tK nS) p w =
     (None, emit (ConsoleLog (''Aborting transition from '' @ tK @ '' to '' @ nS) None) w)"

section \<open>The hook pipeline\<close>

text \<open>
  \<^verbatim>\<open>hooks.map((fn) => fn(payload))\<close>: the hooks are called in array order; a call that
  throws ends the \<^verbatim>\<open>map\<close>, so the hooks after it are not called.
\<close>

fun map_hooks ::
  "(nat \<Rightarrow> transition_payload \<Rightarrow> event) \<Rightarrow> nat \<Rightarrow> transition_handler list \<Rightarrow>
   transition_payload \<Rightarrow> world \<Rightarrow> (error + (nat \<times> error) option list) \<times> world" where
  "map_hooks ev i [] p w = (Inr [], w)"
| "map_hooks ev i (fn # fns) p w =
     (case fn p of
        Inl e \<Rightarrow> (Inl e, emit (ev i p) w)
      | Inr r \<Rightarrow>
          (case map_hooks ev (Suc i) fns p (emit (ev i p) w) of
             (Inl e, w') \<Rightarrow> (Inl e, w')
           | (Inr rs, w') \<Rightarrow> (Inr (r # rs), w')))"

text \<open>
  \<^verbatim>\<open>Promise.all\<close> rejects with the rejection that comes first in time, the earlier
  promise of the array winning a tie, and fulfils when none rejects.
\<close>

fun first_rejection :: "(nat \<times> error) option list \<Rightarrow> (nat \<times> error) option" where
  "first_rejection [] = None"
| "first_rejection (None # rs) = first_rejection rs"
| "first_rejection (Some (t, e) # rs) =
     (case first_rejection rs of
        None \<Rightarrow> Some (t, e)
      | Some (t', e') \<Rightarrow> if t' < t then Some (t', e') else Some (t, e))"

definition Promise_all :: "(nat \<times> error) option list \<Rightarrow> error option" where
  "Promise_all rs = map_option snd (first_rejection rs)"

text \<open>\<^verbatim>\<open>hook && (await hook(entity))\<close> on the object \<open>entity\<close> refers to.\<close>

definition call_event_handler ::
  "(ref \<Rightarrow> event) \<Rightarrow> event_handler option \<Rightarrow> ref \<Rightarrow> world \<Rightarrow> error option \<times> world" where
  "call_event_handler ev hook entity w =
     (case hook of
        None \<Rightarrow> (None, w)
      | Some f \<Rightarrow>
          (case f (objects w entity) of
             (ob, err) \<Rightarrow> (err, (emit (ev entity) w)\<lparr>objects := (objects w)(entity := ob)\<rparr>)))"

text \<open>\<^verbatim>\<open>this.config.globalHooks?.field\<close>, and the same with \<^verbatim>\<open>?? []\<close> for a hook array.\<close>

definition handler_of :: "state_machine \<Rightarrow> (global_hooks \<Rightarrow> 'h option) \<Rightarrow> 'h option" where
  "handler_of sm field =
     (case n_globalHooks (config sm) of None \<Rightarrow> None | Some gh \<Rightarrow> field gh)"

definition hooks_of ::
  "state_machine \<Rightarrow> (global_hooks \<Rightarrow> transition_handler list option) \<Rightarrow> transition_handler list" where
  "hooks_of sm field = (case handler_of sm field of None \<Rightarrow> [] | Some hs \<Rightarrow> hs)"

text \<open>The payload both phases build for the global hooks.\<close>

definition mk_payload :: "string \<Rightarrow> string \<Rightarrow> jsval \<Rightarrow> date \<Rightarrow> transition_payload" where
  "mk_payload currentState nextState context now =
     \<lparr>p_from = currentState, p_to = nextState,
      p_actor = js_prop context ''actor'', p_meta = js_prop context ''meta'',
      p_timestamp = now\<rparr>"

definition preTransition ::
  "state_machine \<Rightarrow> string \<Rightarrow> string \<Rightarrow> transition_config lookup \<Rightarrow> row \<Rightarrow> ref \<Rightarrow> jsval \<Rightarrow>
   world \<Rightarrow> error option \<times> world" where
  "preTransition sm currentState nextState nextTransition allowedNextStates entity context w =
     (if \<not> js_in nextState allowedNextStates then
        (let (now, w1) = new_Date w
         in (Some (new_InvalidTransition
                     \<lparr>tp_from = Some currentState, tp_to = Some nextState,
                      tp_message = Some ''Invalid Transaction'', tp_timestamp = None,
                      tp_meta = context\<rparr> now),
             w1))
      else
        (case edge_prop onBefore nextTransition of
           Inl e \<Rightarrow> (Some e, w)
         | Inr hook \<Rightarrow>
             (case call_event_handler OnBeforeCalled hook entity w of
                (Some e, w1) \<Rightarrow> (Some e, w1)
              | (None, w1) \<Rightarrow>
                  (let (now, w2) = new_Date w1;
                       payload = mk_payload currentState nextState context now
                   in (case map_hooks BeforeTransitionCalled 0
                              (hooks_of sm beforeTransition) payload w2 of
                         (Inl e, w3) \<Rightarrow> (Some e, w3)
                       | (Inr rs, w3) \<Rightarrow> (Promise_all rs, w3))))))"

definition postTransition ::
  "state_machine \<Rightarrow> string \<Rightarrow> string \<Rightarrow> transition_config lookup \<Rightarrow> string \<Rightarrow> ref \<Rightarrow> jsval \<Rightarrow>
   world \<Rightarrow> error option \<times> world" where
  "postTransition sm currentState nextState nextTransition sKey entity context w =
     (if map_of (props (objects w entity)) sKey \<noteq> Some (JStr nextState) then
        (Some (Error ''Transition failed or had incongurencies''), w)
      else
        (case edge_prop onAfter nextTransition of
           Inl e \<Rightarrow> (Some e, w)
         | Inr hook \<Rightarrow>
             (case call_event_handler OnAfterCalled hook entity w of
                (Some e, w1) \<Rightarrow> (Some e, w1)
              | (None, w1) \<Rightarrow>
                  (let (now, w2) = new_Date w1;
                       payload = mk_payload currentState nextState context now
                   in (case map_hooks AfterTransitionCalled 0
                              (hooks_of sm afterTransition) payload w2 of
                         (Inl e, w3) \<Rightarrow> (Some e, w3)
                       | (Inr rs, w3) \<Rightarrow> (Promise_all rs, w3))))))"

section \<open>transition\<close>

text \<open>The body of the \<^verbatim>\<open>try\<close>: the error it throws, if any, and the world it leaves.\<close>

definition try_block ::
  "state_machine \<Rightarrow> string \<Rightarrow> string \<Rightarrow> transition_config lookup \<Rightarrow> row \<Rightarrow> ref \<Rightarrow> jsval \<Rightarrow>
   world \<Rightarrow> error option \<times> world" where
  "try_block sm currentState nextState nextTransition allowedNextStates entity context w =
     (case preTransition sm currentState nextState nextTransition allowedNextStates entity context w of
        (Some e, w1) \<Rightarrow> (Some e, w1)
      | (None, w1) \<Rightarrow>
          (case set_field entity (n_stateKey (config sm)) (JStr nextState) w1 of
             (Some e, w2) \<Rightarrow> (Some e, w2)
           | (None, w2) \<Rightarrow>
               postTransition sm currentState nextState nextTransition (n_stateKey (config sm))
                 entity context
                 (emit (StateWritten entity (n_stateKey (config sm)) nextState) w2)))"

text \<open>\<^verbatim>\<open>error?.message ? error.message : dflt\<close>.\<close>

definition payload_message :: "error \<Rightarrow> string \<Rightarrow> string" where
  "payload_message e dflt = (if message e \<noteq> [] then message e else dflt)"

definition mk_error_payload :: "string \<Rightarrow> string \<Rightarrow> string \<Rightarrow> date \<Rightarrow> jsval \<Rightarrow> error_payload" where
  "mk_error_payload f t m d c =
     \<lparr>ep_from = f, ep_to = t, ep_message = m, ep_timestamp = d, ep_meta = c\<rparr>"

text \<open>
  The three statements of the \<^verbatim>\<open>catch\<close> block, each returning what its handler threw,
  if anything. A handler is called outside any \<^verbatim>\<open>try\<close>, so what it throws leaves
  \<^verbatim>\<open>transition\<close>.
\<close>

definition catch_invalid ::
  "state_machine \<Rightarrow> string \<Rightarrow> string \<Rightarrow> jsval \<Rightarrow> error \<Rightarrow> world \<Rightarrow> error option \<times> world" where
  "catch_invalid sm currentState nextState context e w =
     (if is_InvalidTransition e then
        (let (now, w1) = new_Date w;
             payload = mk_error_payload currentState nextState
                         (payload_message e ''Invalid transition.'') now context
         in (case handler_of sm onInvalidTransition of
               None \<Rightarrow> (None, w1)
             | Some h \<Rightarrow> (h payload, emit (OnInvalidTransitionCalled payload) w1)))
      else (None, w))"

text \<open>The first argument of the \<^verbatim>\<open>console.log\<close> of the \<^verbatim>\<open>else\<close> branch; it ends in a space.\<close>

definition notice :: string where
  "notice = ''Abort Transition triggered but skipped over transition {isAbortable:false} ''"

text \<open>
  In the first branch the assignment \<^verbatim>\<open>entity = structuredClone(entitySnapshot)\<close> binds
  the parameter \<^verbatim>\<open>entity\<close> to a new object; the function returns the reference the
  variable holds afterwards together with what the statement threw, if anything.
\<close>

definition catch_abort ::
  "string \<Rightarrow> string \<Rightarrow> transition_config lookup \<Rightarrow> jsval \<Rightarrow> ref \<Rightarrow> ref \<Rightarrow> error \<Rightarrow> world \<Rightarrow>
   (error option \<times> ref) \<times> world" where
  "catch_abort currentState nextState nextTransition context entity entitySnapshot e w =
     (if abortable nextTransition \<and> is_AbortTransition e then
        (case structuredClone entitySnapshot w of
           (Inl x, w1) \<Rightarrow> ((Some x, entity), w1)
         | (Inr entity', w1) \<Rightarrow>
             (let (now, w2) = new_Date w1;
                  payload = mk_error_payload currentState nextState
                              (payload_message e ''Aborting transition.'') now context
              in (case edge_prop onAbort nextTransition of
                    Inl x \<Rightarrow> ((Some x, entity'), w2)
                  | Inr None \<Rightarrow> ((None, entity'), w2)
                  | Inr (Some h) \<Rightarrow>
                      (let (x, w3) = call_onAbort h payload (emit (OnAbortCalled payload) w2)
                       in ((x, entity'), w3)))))
      else
        ((None, entity),
         emit (ConsoleLog notice (Some e)) w))"

definition catch_onError ::
  "state_machine \<Rightarrow> string \<Rightarrow> string \<Rightarrow> jsval \<Rightarrow> error \<Rightarrow> world \<Rightarrow> error option \<times> world" where
  "catch_onError sm currentState nextState context e w =
     (case handler_of sm onError of
        None \<Rightarrow> (None, w)
      | Some h \<Rightarrow>
          (let (now, w1) = new_Date w;
               payload = mk_error_payload currentState nextState
                           (payload_message e ''Aborting transition.'') now context
           in (h e payload, emit (OnErrorCalled e payload) w1)))"

text \<open>
  How a call ends: the promise resolves, or it rejects with an error. \<open>Unmodelled\<close>
  marks the two situations the model does not follow: the state field does not hold a
  string (\<^verbatim>\<open>currentState\<close> is typed \<^verbatim>\<open>string\<close>), or it names a member the transitions
  record inherits rather than a state it declares, where the outcome depends on the
  properties of that built-in object.
\<close>

datatype completion = Resolved | Rejected error | Unmodelled

definition catch_block ::
  "state_machine \<Rightarrow> string \<Rightarrow> string \<Rightarrow> transition_config lookup \<Rightarrow> jsval \<Rightarrow> ref \<Rightarrow> ref \<Rightarrow>
   error \<Rightarrow> world \<Rightarrow> completion \<times> world" where
  "catch_block sm currentState nextState nextTransition context entity entitySnapshot e w =
     (case catch_invalid sm currentState nextState context e w of
        (Some x, w1) \<Rightarrow> (Rejected x, w1)
      | (None, w1) \<Rightarrow>
          (case catch_abort currentState nextState nextTransition context entity entitySnapshot e w1 of
             ((Some x, entity'), w2) \<Rightarrow> (Rejected x, w2)
           | ((None, entity'), w2) \<Rightarrow>
               (case catch_onError sm currentState nextState context e w2 of
                  (Some x, w3) \<Rightarrow> (Rejected x, w3)
                | (None, w3) \<Rightarrow> (Resolved, w3))))"

text \<open>
  \<^verbatim>\<open>transition(entity, nextState, context)\<close>. The two lookups and the snapshot come
  before the \<^verbatim>\<open>try\<close>: a current state with no row makes \<^verbatim>\<open>allowedNextStates\<close> undefined,
  and the read \<^verbatim>\<open>allowedNextStates[nextState]\<close> then throws to the caller; so does a
  snapshot that cannot be taken. An absent \<^verbatim>\<open>context\<close> is \<open>JUndefined\<close>.
\<close>

definition transition ::
  "state_machine \<Rightarrow> ref \<Rightarrow> string \<Rightarrow> jsval \<Rightarrow> world \<Rightarrow> completion \<times> world" where
  "transition sm entity nextState context w =
     (case map_of (props (objects w entity)) (n_stateKey (config sm)) of
        Some (JStr currentState) \<Rightarrow>
          (case js_get (table_view w (n_transitions (config sm))) currentState of
             Undefined \<Rightarrow> (Rejected (TypeError ''Cannot read properties of undefined''), w)
           | Inherited \<Rightarrow> (Unmodelled, w)
           | Own allowedNextStates \<Rightarrow>
               (let nextTransition = js_get allowedNextStates nextState
                in (case structuredClone entity w of
                      (Inl x, w1) \<Rightarrow> (Rejected x, w1)
                    | (Inr entitySnapshot, w1) \<Rightarrow>
                        (case try_block sm currentState nextState nextTransition
                                allowedNextStates entity context w1 of
                           (None, w2) \<Rightarrow> (Resolved, w2)
                         | (Some e, w2) \<Rightarrow>
                             catch_block sm currentState nextState nextTransition context entity
                               entitySnapshot e w2))))
      | _ \<Rightarrow> (Unmodelled, w))"

section \<open>Vocabulary of the properties\<close>

text \<open>
  What an edge hook, present or absent, does to the object it is given: the content it
  leaves, the error it raises, and the event its call is.
\<close>

definition leaves :: "event_handler option \<Rightarrow> obj \<Rightarrow> obj" where
  "leaves hook ob = (case hook of None \<Rightarrow> ob | Some f \<Rightarrow> fst (f ob))"

definition raised :: "event_handler option \<Rightarrow> obj \<Rightarrow> error option" where
  "raised hook ob = (case hook of None \<Rightarrow> None | Some f \<Rightarrow> snd (f ob))"

definition called :: "(ref \<Rightarrow> event) \<Rightarrow> event_handler option \<Rightarrow> ref \<Rightarrow> event list" where
  "called ev hook r = (case hook of None \<Rightarrow> [] | Some f \<Rightarrow> [ev r])"

text \<open>The calls of a list of global hooks, one per hook, in array order.\<close>

definition calls ::
  "(nat \<Rightarrow> transition_payload \<Rightarrow> event) \<Rightarrow> transition_handler list \<Rightarrow> transition_payload \<Rightarrow>
   event list" where
  "calls ev hs p = map (\<lambda>i. ev i p) [0..<length hs]"



fun is_OnAbortCalled :: "event \<Rightarrow> bool" where
  "is_OnAbortCalled (OnAbortCalled p) = True"
| "is_OnAbortCalled _ = False"

fun is_OnErrorCalled :: "event \<Rightarrow> bool" where
  "is_OnErrorCalled (OnErrorCalled e p) = True"
| "is_OnErrorCalled _ = False"


text \<open>
  The calls of the catch block: the payload a handler receives, and the events of each of
  the three statements when its handler is configured.
\<close>

definition error_payload_at :: "string \<Rightarrow> string \<Rightarrow> jsval \<Rightarrow> error \<Rightarrow> string \<Rightarrow> date \<Rightarrow> error_payload" where
  "error_payload_at S T ctx e dflt now =
     \<lparr>ep_from = S, ep_to = T, ep_message = (if message e = [] then dflt else message e),
      ep_timestamp = now, ep_meta = ctx\<rparr>"

definition invalid_calls :: "state_machine \<Rightarrow> string \<Rightarrow> string \<Rightarrow> jsval \<Rightarrow> error \<Rightarrow> date \<Rightarrow> event list" where
  "invalid_calls sm S T ctx e now =
     (if is_InvalidTransition e \<and> handler_of sm onInvalidTransition \<noteq> None
      then [OnInvalidTransitionCalled (error_payload_at S T ctx e ''Invalid transition.'' now)]
      else [])"

definition abort_calls :: "transition_config lookup \<Rightarrow> string \<Rightarrow> string \<Rightarrow> jsval \<Rightarrow> error \<Rightarrow> date \<Rightarrow> event list" where
  "abort_calls nt S T ctx e now =
     (case nt of
        Own c \<Rightarrow>
          (case onAbort c of
             None \<Rightarrow> []
           | Some (Supplied f) \<Rightarrow> [OnAbortCalled (error_payload_at S T ctx e ''Aborting transition.'' now)]
           | Some (DefaultOnAbort a b) \<Rightarrow>
               [OnAbortCalled (error_payload_at S T ctx e ''Aborting transition.'' now),
                ConsoleLog (''Aborting transition from '' @ a @ '' to '' @ b) None])
      | _ \<Rightarrow> [])"

definition error_calls :: "state_machine \<Rightarrow> string \<Rightarrow> string \<Rightarrow> jsval \<Rightarrow> error \<Rightarrow> date \<Rightarrow> event list" where
  "error_calls sm S T ctx e now =
     (if handler_of sm onError \<noteq> None
      then [OnErrorCalled e (error_payload_at S T ctx e ''Aborting transition.'' now)]
      else [])"

text \<open>
  The entity is in state \<open>S\<close>: it is an object of the store (the references below
  \<open>next_ref\<close> are the ones in use) and its state field holds \<open>S\<close>.
\<close>

definition in_state :: "state_machine \<Rightarrow> world \<Rightarrow> ref \<Rightarrow> string \<Rightarrow> bool" where
  "in_state sm w entity S \<longleftrightarrow>
     entity < next_ref w \<and>
     map_of (props (objects w entity)) (n_stateKey (config sm)) = Some (JStr S)"

text \<open>The entity holds nothing \<^verbatim>\<open>structuredClone\<close> refuses.\<close>

definition can_be_cloned :: "world \<Rightarrow> ref \<Rightarrow> bool" where
  "can_be_cloned w entity = list_all (\<lambda>kv. cloneable (snd kv)) (props (objects w entity))"

text \<open>
  The body of the \<^verbatim>\<open>try\<close> as \<^verbatim>\<open>transition\<close> runs it for an entity in state \<open>S\<close> whose
  row is \<open>rw\<close>: after the snapshot, on the edge the row gives for the target. There is
  no run of the body when the snapshot fails.
\<close>

definition attempt ::
  "state_machine \<Rightarrow> string \<Rightarrow> string \<Rightarrow> row \<Rightarrow> ref \<Rightarrow> jsval \<Rightarrow> world \<Rightarrow>
   (error option \<times> world) option" where
  "attempt sm S T rw entity context w =
     (case structuredClone entity w of
        (Inl x, w1) \<Rightarrow> None
      | (Inr entitySnapshot, w1) \<Rightarrow> Some (try_block sm S T (js_get rw T) rw entity context w1))"

text \<open>
  The entries of a transitions record in the order the constructor visits them: source,
  target, and the edge the entry refers to.
\<close>

definition slots :: "table_refs \<Rightarrow> (string \<times> string \<times> ref) list" where
  "slots tb = concat (map (\<lambda>(tK, rw). map (\<lambda>(nS, er). (tK, nS, er)) rw) tb)"

text \<open>One pass over such a list of entries, doing at each what the inner loop does.\<close>

fun visit ::
  "(string \<times> string \<times> ref) list \<Rightarrow> (ref \<Rightarrow> transition_config) \<Rightarrow> (ref \<Rightarrow> transition_config)" where
  "visit [] es = es"
| "visit ((tK, nS, er) # sl) es = visit sl (es(er := install_default tK nS (es er)))"

text \<open>The part of the world that holds the configuration.\<close>

definition records_of :: "world \<Rightarrow> (ref \<Rightarrow> table_refs) \<times> (ref \<Rightarrow> transition_config)" where
  "records_of w = (tables w, edges w)"

text \<open>
  What the constructor establishes for a record: every edge it leads to that is marked
  abortable has an \<^verbatim>\<open>onAbort\<close>.
\<close>

definition defaults_installed :: "world \<Rightarrow> ref \<Rightarrow> bool" where
  "defaults_installed w r =
     (\<forall>(tK, nS, er) \<in> set (slots (tables w r)).
        isAbortable (edges w er) = Some True \<longrightarrow> onAbort (edges w er) \<noteq> None)"

section \<open>Example configurations\<close>

text \<open>
  The edge \<^verbatim>\<open>{}\<close>; a world with one entity (reference 0), one transitions record
  (reference 0) and its edges; the configuration that refers to that record; the
  machine its constructor builds and the world the constructor leaves.
\<close>

definition plain_edge :: transition_config where
  "plain_edge =
     \<lparr>isAbortable = None, onBefore = None, onAbort = None, onAfter = None, details = None\<rparr>"

definition start_world :: "table_refs \<Rightarrow> (ref \<Rightarrow> transition_config) \<Rightarrow> obj \<Rightarrow> world" where
  "start_world tb es ob =
     \<lparr>objects = (\<lambda>r. \<lparr>props = [], frozen = False\<rparr>)(0 := ob), next_ref = 1,
      tables = (\<lambda>r. [])(0 := tb),
      edges = es, events = [], clock = (\<lambda>n. n), ticks = 0\<rparr>"

definition machine_for :: "global_hooks option \<Rightarrow> machine_config" where
  "machine_for gh =
     \<lparr>initialState = ''idle'', stateKey = None, transitions = 0, globalHooks = gh\<rparr>"

definition built_machine ::
  "global_hooks option \<Rightarrow> table_refs \<Rightarrow> (ref \<Rightarrow> transition_config) \<Rightarrow> obj \<Rightarrow> state_machine" where
  "built_machine gh tb es ob = fst (constructor (machine_for gh) (start_world tb es ob))"

definition built_world ::
  "global_hooks option \<Rightarrow> table_refs \<Rightarrow> (ref \<Rightarrow> transition_config) \<Rightarrow> obj \<Rightarrow> world" where
  "built_world gh tb es ob = snd (constructor (machine_for gh) (start_world tb es ob))"

definition processor :: obj where
  "processor = \<lparr>props = [(''status'', JStr ''idle''), (''paid'', JBool True)], frozen = False\<rparr>"

text \<open>Global hooks that all return: one before-hook, two after-hooks, both handlers.\<close>

definition quiet_hooks :: global_hooks where
  "quiet_hooks =
     \<lparr>beforeTransition = Some [\<lambda>p. Inr None],
      afterTransition = Some [\<lambda>p. Inr None, \<lambda>p. Inr None],
      onInvalidTransition = Some (\<lambda>p. None), onError = Some (\<lambda>e p. None)\<rparr>"

text \<open>The record \<^verbatim>\<open>{idle: {running: e}}\<close> with its one edge \<open>e\<close> at reference 0.\<close>

definition single_refs :: table_refs where
  "single_refs = [(''idle'', [(''running'', 0)])]"

definition single :: "transition_config \<Rightarrow> ref \<Rightarrow> transition_config" where
  "single e = (\<lambda>r. plain_edge)(0 := e)"

text \<open>
  The lifecycle \<^verbatim>\<open>{idle: {running: {onBefore, onAfter}}, running: {completed: {}}}\<close>, with
  hooks that each set a field of their own.
\<close>

definition lifecycle_edge :: transition_config where
  "lifecycle_edge =
     plain_edge
       \<lparr>onBefore :=
          Some (\<lambda>ob. (ob\<lparr>props := AList.update ''checked'' (JBool True) (props ob)\<rparr>, None)),
        onAfter :=
          Some (\<lambda>ob. (ob\<lparr>props := AList.update ''started'' (JBool True) (props ob)\<rparr>, None))\<rparr>"

definition lifecycle_refs :: table_refs where
  "lifecycle_refs = [(''idle'', [(''running'', 0)]), (''running'', [(''completed'', 1)])]"

definition lifecycle_machine :: state_machine where
  "lifecycle_machine =
     built_machine (Some quiet_hooks) lifecycle_refs (single lifecycle_edge) processor"

definition lifecycle_world :: world where
  "lifecycle_world =
     built_world (Some quiet_hooks) lifecycle_refs (single lifecycle_edge) processor"

text \<open>
  The same lifecycle with an entity that has reached \<open>completed\<close>, its last state: the
  table names it as a target and has no row for it.
\<close>

definition finished :: obj where
  "finished = \<lparr>props = [(''status'', JStr ''completed'')], frozen = False\<rparr>"

definition finished_world :: world where
  "finished_world =
     built_world (Some quiet_hooks) lifecycle_refs (single lifecycle_edge) finished"

text \<open>The same lifecycle under global hooks whose \<^verbatim>\<open>onInvalidTransition\<close> throws.\<close>

definition throwing_hooks :: global_hooks where
  "throwing_hooks = quiet_hooks\<lparr>onInvalidTransition := Some (\<lambda>p. Some (Error ''listener failed''))\<rparr>"

definition fragile_machine :: state_machine where
  "fragile_machine =
     built_machine (Some throwing_hooks) lifecycle_refs (single lifecycle_edge) processor"

definition fragile_world :: world where
  "fragile_world =
     built_world (Some throwing_hooks) lifecycle_refs (single lifecycle_edge) processor"

text \<open>
  The signal raised at time 0 for a target \<open>T\<close> the row of \<open>idle\<close> does not answer to,
  with its message and its details, and
  \<^verbatim>\<open>new AbortTransition({message: "Payment not received"})\<close>, created at time 0.
\<close>

definition invalid_from_idle :: "string \<Rightarrow> error" where
  "invalid_from_idle T =
     InvalidTransition ''Invalid Transaction''
       \<lparr>tp_from = Some ''idle'', tp_to = Some T, tp_message = Some ''Invalid Transaction'',
        tp_timestamp = Some (Some 0), tp_meta = JUndefined\<rparr>"

definition payment_abort :: error where
  "payment_abort =
     new_AbortTransition
       \<lparr>tp_from = None, tp_to = None, tp_message = Some ''Payment not received'',
        tp_timestamp = None, tp_meta = JUndefined\<rparr> 0"

text \<open>
  An abortable edge with no \<^verbatim>\<open>onAbort\<close> whose \<^verbatim>\<open>onBefore\<close> sets \<^verbatim>\<open>paid\<close> to false and
  then raises the abort signal.
\<close>

definition veto_edge :: transition_config where
  "veto_edge =
     plain_edge\<lparr>isAbortable := Some True,
                onBefore :=
                  Some (\<lambda>ob. (ob\<lparr>props := AList.update ''paid'' (JBool False) (props ob)\<rparr>,
                              Some payment_abort))\<rparr>"

definition veto_machine :: state_machine where
  "veto_machine = built_machine (Some quiet_hooks) single_refs (single veto_edge) processor"

definition veto_world :: world where
  "veto_world = built_world (Some quiet_hooks) single_refs (single veto_edge) processor"

text \<open>An abortable edge whose \<^verbatim>\<open>onAfter\<close> raises the abort signal.\<close>

definition late_edge :: transition_config where
  "late_edge =
     plain_edge\<lparr>isAbortable := Some True, onAfter := Some (\<lambda>ob. (ob, Some payment_abort))\<rparr>"

definition late_machine :: state_machine where
  "late_machine = built_machine (Some quiet_hooks) single_refs (single late_edge) processor"

definition late_world :: world where
  "late_world = built_world (Some quiet_hooks) single_refs (single late_edge) processor"

text \<open>An edge not marked abortable whose \<^verbatim>\<open>onBefore\<close> raises the abort signal.\<close>

definition firm_edge :: transition_config where
  "firm_edge = plain_edge\<lparr>onBefore := Some (\<lambda>ob. (ob, Some payment_abort))\<rparr>"

definition firm_machine :: state_machine where
  "firm_machine = built_machine (Some quiet_hooks) single_refs (single firm_edge) processor"

definition firm_world :: world where
  "firm_world = built_world (Some quiet_hooks) single_refs (single firm_edge) processor"

text \<open>A plain edge whose \<^verbatim>\<open>onAfter\<close> raises an ordinary error.\<close>

definition hasty_edge :: transition_config where
  "hasty_edge = plain_edge\<lparr>onAfter := Some (\<lambda>ob. (ob, Some (Error ''onAfter error'')))\<rparr>"

definition hasty_machine :: state_machine where
  "hasty_machine = built_machine (Some quiet_hooks) single_refs (single hasty_edge) processor"

definition hasty_world :: world where
  "hasty_world = built_world (Some quiet_hooks) single_refs (single hasty_edge) processor"

text \<open>
  One edge object used for two entries, as in
  \<^verbatim>\<open>const e = {isAbortable: true, onBefore}; {idle: {running: e}, paused: {running: e}}\<close>,
  and an entity in \<open>paused\<close>.
\<close>

definition shared_refs :: table_refs where
  "shared_refs = [(''idle'', [(''running'', 0)]), (''paused'', [(''running'', 0)])]"

definition paused :: obj where
  "paused = \<lparr>props = [(''status'', JStr ''paused''), (''paid'', JBool True)], frozen = False\<rparr>"

definition shared_machine :: state_machine where
  "shared_machine = built_machine (Some quiet_hooks) shared_refs (single veto_edge) paused"

definition shared_world :: world where
  "shared_world = built_world (Some quiet_hooks) shared_refs (single veto_edge) paused"

text \<open>
  The lifecycle with an entity that carries a callback, as in
  \<^verbatim>\<open>{status: "idle", notify: () => {}}\<close>.
\<close>

definition subscriber :: obj where
  "subscriber = \<lparr>props = [(''status'', JStr ''idle''), (''notify'', JFun)], frozen = False\<rparr>"

definition subscriber_world :: world where
  "subscriber_world =
     built_world (Some quiet_hooks) lifecycle_refs (single lifecycle_edge) subscriber"

text \<open>A plain edge whose \<^verbatim>\<open>onAfter\<close> sets the state field itself and returns.\<close>

definition restless_edge :: transition_config where
  "restless_edge =
     plain_edge
       \<lparr>onAfter :=
          Some (\<lambda>ob. (ob\<lparr>props := AList.update ''status'' (JStr ''archived'') (props ob)\<rparr>,
                      None))\<rparr>"

definition restless_machine :: state_machine where
  "restless_machine = built_machine (Some quiet_hooks) single_refs (single restless_edge) processor"

definition restless_world :: world where
  "restless_world = built_world (Some quiet_hooks) single_refs (single restless_edge) processor"

text \<open>A plain edge and an entity that was frozen, as in \<^verbatim>\<open>Object.freeze({status: "idle"})\<close>.\<close>

definition frozen_entity :: obj where
  "frozen_entity = \<lparr>props = [(''status'', JStr ''idle'')], frozen = True\<rparr>"

definition frozen_machine :: state_machine where
  "frozen_machine = built_machine (Some quiet_hooks) single_refs (single plain_edge) frozen_entity"

definition frozen_world :: world where
  "frozen_world = built_world (Some quiet_hooks) single_refs (single plain_edge) frozen_entity"

section \<open>Basic facts\<close>

text \<open>Unfolding the examples, and running the model on them.\<close>

lemmas fixture_defs = start_world_def processor_def machine_for_def plain_edge_def
  built_machine_def built_world_def quiet_hooks_def finished_def single_refs_def single_def
  constructor_def install_default_def table_view_def row_view_def

lemmas run_defs = transition_def try_block_def preTransition_def postTransition_def
  catch_block_def catch_invalid_def catch_abort_def catch_onError_def structuredClone_def
  copy_of_def
  new_Date_def emit_def set_field_def js_get_def js_in_def object_prototype_names_def
  edge_prop_def abortable_def call_event_handler_def hooks_of_def handler_of_def
  Promise_all_def mk_payload_def mk_error_payload_def payload_message_def
  new_InvalidTransition_def new_AbortTransition_def message_or_def details_of_def
  notice_def Let_def

lemmas example_defs = veto_machine_def veto_world_def veto_edge_def
  late_machine_def late_world_def late_edge_def
  firm_machine_def firm_world_def firm_edge_def
  fragile_machine_def fragile_world_def throwing_hooks_def finished_world_def
  lifecycle_machine_def lifecycle_world_def lifecycle_refs_def lifecycle_edge_def
  payment_abort_def invalid_from_idle_def
  hasty_machine_def hasty_world_def hasty_edge_def
  shared_machine_def shared_world_def shared_refs_def paused_def
  subscriber_def subscriber_world_def
  restless_machine_def restless_world_def restless_edge_def
  frozen_entity_def frozen_machine_def frozen_world_def

lemma map_hooks_shape:
  "\<exists>n. snd (map_hooks ev i hs p w) = w\<lparr>events := events w @ map (\<lambda>j. ev j p) [i..<i + n]\<rparr>"
proof (induction hs arbitrary: i w)
  case Nil
  have "snd (map_hooks ev i [] p w) = w\<lparr>events := events w @ map (\<lambda>j. ev j p) [i..<i + 0]\<rparr>"
    by simp
  then show ?case by blast
next
  case (Cons h hs)
  show ?case
  proof (cases "h p")
    case (Inl e)
    have "snd (map_hooks ev i (h # hs) p w)
        = w\<lparr>events := events w @ map (\<lambda>j. ev j p) [i..<i + 1]\<rparr>"
      using Inl by (simp add: emit_def)
    then show ?thesis by blast
  next
    case (Inr r)
    obtain n where n: "snd (map_hooks ev (Suc i) hs p (emit (ev i p) w))
        = (emit (ev i p) w)\<lparr>events := events (emit (ev i p) w)
             @ map (\<lambda>j. ev j p) [Suc i..<Suc i + n]\<rparr>"
      using Cons.IH by blast
    obtain res w' where rec: "map_hooks ev (Suc i) hs p (emit (ev i p) w) = (res, w')"
      by (cases "map_hooks ev (Suc i) hs p (emit (ev i p) w)")
    have step: "snd (map_hooks ev i (h # hs) p w) = w'"
      using Inr rec by (cases res) simp_all
    have eq: "[i..<i + Suc n] = i # [Suc i..<Suc i + n]"
      by (simp add: upt_conv_Cons)
    have "snd (map_hooks ev i (h # hs) p w)
        = w\<lparr>events := events w @ map (\<lambda>j. ev j p) (i # [Suc i..<Suc i + n])\<rparr>"
      using step n rec by (simp add: emit_def)
    then have "snd (map_hooks ev i (h # hs) p w)
        = w\<lparr>events := events w @ map (\<lambda>j. ev j p) [i..<i + Suc n]\<rparr>"
      by (simp only: eq)
    then show ?thesis by blast
  qed
qed

lemma map_hooks_frame [simp]:
  "objects (snd (map_hooks ev i hs p w)) = objects w"
  "next_ref (snd (map_hooks ev i hs p w)) = next_ref w"
  "tables (snd (map_hooks ev i hs p w)) = tables w"
  "edges (snd (map_hooks ev i hs p w)) = edges w"
  "clock (snd (map_hooks ev i hs p w)) = clock w"
  "ticks (snd (map_hooks ev i hs p w)) = ticks w"
  using map_hooks_shape [of ev i hs p w] by auto

lemma map_hooks_filter:
  assumes "\<And>j. \<not> P (ev j p)"
  shows "filter P (events (snd (map_hooks ev i hs p w))) = filter P (events w)"
  using map_hooks_shape [of ev i hs p w] assms by (auto simp: filter_empty_conv)

lemma hooks_case_snd [simp]:
  "snd (case map_hooks ev i hs p w of
          (Inl e, w3) \<Rightarrow> (Some e, w3) | (Inr rs, w3) \<Rightarrow> (Promise_all rs, w3))
     = snd (map_hooks ev i hs p w)"
  by (simp split: prod.splits sum.splits)





lemma call_event_handler_eq:
  "call_event_handler ev hook r w =
     (raised hook (objects w r),
      w\<lparr>objects := (objects w)(r := leaves hook (objects w r)),
        events := events w @ called ev hook r\<rparr>)"
  by (cases hook)
     (simp_all add: call_event_handler_def raised_def leaves_def called_def emit_def
        split: prod.splits)

lemma js_in_own: "map_of ob k = Some v \<Longrightarrow> js_in k ob"
  by (auto simp: js_in_def dest: map_of_SomeD intro: rev_image_eqI)

lemma js_get_own: "map_of ob k = Some v \<Longrightarrow> js_get ob k = Own v"
  by (simp add: js_get_def)

lemma filter_called: "\<not> P (ev r) \<Longrightarrow> filter P (called ev h r) = []"
  by (simp add: called_def split: option.splits)


subsection \<open>A phase in which nothing raises\<close>



subsection \<open>What the try block leaves alone\<close>

lemma preTransition_filter:
  assumes "\<And>r. \<not> P (OnBeforeCalled r)" and "\<And>i p. \<not> P (BeforeTransitionCalled i p)"
  shows "filter P (events (snd (preTransition sm S T nt rw r ctx w))) = filter P (events w)"
  using assms
  by (simp add: preTransition_def edge_prop_def call_event_handler_eq new_Date_def
      map_hooks_filter Let_def filter_called
      split: lookup.splits option.splits sum.splits)

lemma postTransition_filter:
  assumes "\<And>r. \<not> P (OnAfterCalled r)" and "\<And>i p. \<not> P (AfterTransitionCalled i p)"
  shows "filter P (events (snd (postTransition sm S T nt sk r ctx w))) = filter P (events w)"
  using assms
  by (simp add: postTransition_def edge_prop_def call_event_handler_eq new_Date_def
      map_hooks_filter Let_def filter_called
      split: lookup.splits option.splits sum.splits)

lemma try_block_filter:
  assumes "\<And>r. \<not> P (OnBeforeCalled r)" and "\<And>i p. \<not> P (BeforeTransitionCalled i p)"
    and "\<And>r k v. \<not> P (StateWritten r k v)"
    and "\<And>r. \<not> P (OnAfterCalled r)" and "\<And>i p. \<not> P (AfterTransitionCalled i p)"
  shows "filter P (events (snd (try_block sm S T nt rw r ctx w))) = filter P (events w)"
proof (cases "preTransition sm S T nt rw r ctx w")
  case (Pair res w1)
  have pre: "filter P (events w1) = filter P (events w)"
    using preTransition_filter [of P sm S T nt rw r ctx w] assms Pair by simp
  show ?thesis
  proof (cases res)
    case None
    then show ?thesis
      using Pair pre assms
      by (simp add: try_block_def postTransition_filter emit_def set_field_def)
  next
    case (Some e)
    then show ?thesis
      using Pair pre by (simp add: try_block_def)
  qed
qed

lemma preTransition_frame:
  "records_of (snd (preTransition sm S T nt rw r ctx w)) = records_of w"
  "next_ref (snd (preTransition sm S T nt rw r ctx w)) = next_ref w"
  "r' \<noteq> r \<Longrightarrow> objects (snd (preTransition sm S T nt rw r ctx w)) r' = objects w r'"
  by (simp_all add: records_of_def preTransition_def edge_prop_def call_event_handler_eq
      new_Date_def Let_def split: lookup.splits option.splits sum.splits)

lemma postTransition_frame:
  "records_of (snd (postTransition sm S T nt sk r ctx w)) = records_of w"
  "next_ref (snd (postTransition sm S T nt sk r ctx w)) = next_ref w"
  "r' \<noteq> r \<Longrightarrow> objects (snd (postTransition sm S T nt sk r ctx w)) r' = objects w r'"
  by (simp_all add: records_of_def postTransition_def edge_prop_def call_event_handler_eq
      new_Date_def Let_def split: lookup.splits option.splits sum.splits)

lemma try_block_frame:
  "records_of (snd (try_block sm S T nt rw r ctx w)) = records_of w"
  "next_ref (snd (try_block sm S T nt rw r ctx w)) = next_ref w"
  "r' \<noteq> r \<Longrightarrow> objects (snd (try_block sm S T nt rw r ctx w)) r' = objects w r'"
proof -
  obtain res w1 where pre: "preTransition sm S T nt rw r ctx w = (res, w1)"
    by (cases "preTransition sm S T nt rw r ctx w")
  have "w1 = snd (preTransition sm S T nt rw r ctx w)"
    using pre by simp
  then have w1: "records_of w1 = records_of w" "next_ref w1 = next_ref w"
    "r' \<noteq> r \<Longrightarrow> objects w1 r' = objects w r'"
    by (simp_all add: preTransition_frame)
  let ?sk = "n_stateKey (config sm)"
  let ?w2 = "emit (StateWritten r ?sk T)
               (w1\<lparr>objects := (objects w1)
                  (r := (objects w1 r)\<lparr>props := AList.update ?sk (JStr T) (props (objects w1 r))\<rparr>)\<rparr>)"
  have w2: "records_of ?w2 = records_of w1" "next_ref ?w2 = next_ref w1"
    "r' \<noteq> r \<Longrightarrow> objects ?w2 r' = objects w1 r'"
    by (simp_all add: records_of_def emit_def)
  have body: "snd (try_block sm S T nt rw r ctx w) =
      (if res = None \<and> \<not> frozen (objects w1 r)
       then snd (postTransition sm S T nt ?sk r ctx ?w2) else w1)"
    using pre by (cases res) (simp_all add: try_block_def set_field_def)
  show "records_of (snd (try_block sm S T nt rw r ctx w)) = records_of w"
    by (simp add: body postTransition_frame w1 w2)
  show "next_ref (snd (try_block sm S T nt rw r ctx w)) = next_ref w"
    by (simp add: body postTransition_frame w1 w2)
  show "objects (snd (try_block sm S T nt rw r ctx w)) r' = objects w r'" if "r' \<noteq> r"
    using that by (simp add: body postTransition_frame w1 w2)
qed

lemma preTransition_onBefore_raises:
  assumes "js_in T rw" and "onBefore c = Some f" and "snd (f (objects w r)) = Some e"
  shows "preTransition sm S T (Own c) rw r ctx w =
     (Some e, w\<lparr>objects := (objects w)(r := fst (f (objects w r))),
                events := events w @ [OnBeforeCalled r]\<rparr>)"
  using assms
  by (simp add: preTransition_def edge_prop_def call_event_handler_eq raised_def leaves_def
      called_def)

subsection \<open>The snapshot\<close>

lemma copy_of_copy [simp]: "copy_of (copy_of ob) = copy_of ob"
  by (simp add: copy_of_def)

lemma structuredClone_succeeds:
  "can_be_cloned w r \<Longrightarrow>
   structuredClone r w =
     (Inr (next_ref w),
      w\<lparr>objects := (objects w)(next_ref w := copy_of (objects w r)), next_ref := Suc (next_ref w)\<rparr>)"
  by (simp add: structuredClone_def can_be_cloned_def)

lemma structuredClone_fails:
  "\<not> can_be_cloned w r \<Longrightarrow>
   structuredClone r w = (Inl (DataCloneError ''The object could not be cloned.''), w)"
  by (simp add: structuredClone_def can_be_cloned_def)

lemma attempt_cloned:
  "can_be_cloned w entity \<Longrightarrow>
   attempt sm S T rw entity ctx w =
     Some (try_block sm S T (js_get rw T) rw entity ctx
             (w\<lparr>objects := (objects w)(next_ref w := copy_of (objects w entity)),
                next_ref := Suc (next_ref w)\<rparr>))"
  by (simp add: attempt_def structuredClone_succeeds)

lemma attempt_refused: "\<not> can_be_cloned w entity \<Longrightarrow> attempt sm S T rw entity ctx w = None"
  by (simp add: attempt_def structuredClone_fails)

lemma attempt_Some_cloned:
  "attempt sm S T rw entity ctx w = Some x \<Longrightarrow> can_be_cloned w entity"
  by (cases "can_be_cloned w entity") (simp_all add: attempt_refused)

text \<open>The snapshot is out of the reach of the hooks: it can be cloned again.\<close>

lemma snapshot_kept:
  assumes "entity < next_ref w" and "attempt sm S T rw entity ctx w = Some (res, w2)"
  shows "objects w2 (next_ref w) = copy_of (objects w entity)"
    and "can_be_cloned w2 (next_ref w)"
    and "next_ref w2 = Suc (next_ref w)"
proof -
  let ?w1 = "w\<lparr>objects := (objects w)(next_ref w := copy_of (objects w entity)),
               next_ref := Suc (next_ref w)\<rparr>"
  have cl: "can_be_cloned w entity"
    using assms(2) by (rule attempt_Some_cloned)
  have body: "try_block sm S T (js_get rw T) rw entity ctx ?w1 = (res, w2)"
    using assms(2) by (simp add: attempt_cloned [OF cl])
  have ne: "next_ref w \<noteq> entity"
    using assms(1) by simp
  show ob: "objects w2 (next_ref w) = copy_of (objects w entity)"
    using try_block_frame(3) [of "next_ref w" entity sm S T "js_get rw T" rw ctx ?w1, OF ne] body
    by simp
  show "can_be_cloned w2 (next_ref w)"
    using cl by (simp add: can_be_cloned_def ob copy_of_def)
  show "next_ref w2 = Suc (next_ref w)"
    using try_block_frame(2) [of sm S T "js_get rw T" rw entity ctx ?w1] body by simp
qed

subsection \<open>The statements of the catch block\<close>

lemma abort_not_invalid: "is_AbortTransition e \<Longrightarrow> \<not> is_InvalidTransition e"
  by (cases e) simp_all

lemma error_payload_at_eq:
  "mk_error_payload S T (payload_message e dflt) now ctx = error_payload_at S T ctx e dflt now"
  by (simp add: mk_error_payload_def payload_message_def error_payload_at_def)

lemma catch_invalid_world:
  "snd (catch_invalid sm S T ctx e w) =
     w\<lparr>events := events w @ invalid_calls sm S T ctx e (clock w (ticks w)),
       ticks := (if is_InvalidTransition e then Suc (ticks w) else ticks w)\<rparr>"
  by (auto simp: catch_invalid_def invalid_calls_def error_payload_at_eq new_Date_def emit_def
      Let_def split: option.splits)

lemma catch_invalid_returns:
  assumes "\<forall>h p. handler_of sm onInvalidTransition = Some h \<longrightarrow> h p = None"
  shows "fst (catch_invalid sm S T ctx e w) = None"
  using assms
  by (auto simp: catch_invalid_def new_Date_def Let_def split: option.splits)

lemma catch_invalid_skips:
  "\<not> is_InvalidTransition e \<Longrightarrow> catch_invalid sm S T ctx e w = (None, w)"
  by (simp add: catch_invalid_def)

lemma catch_invalid_cloned [simp]:
  "can_be_cloned (snd (catch_invalid sm S T ctx e w)) r = can_be_cloned w r"
  by (simp add: catch_invalid_world can_be_cloned_def)

lemma catch_abort_else:
  "\<not> (abortable nt \<and> is_AbortTransition e) \<Longrightarrow>
   catch_abort S T nt ctx r snap e w = ((None, r), emit (ConsoleLog notice (Some e)) w)"
  unfolding catch_abort_def by (simp only: if_False)

lemma catch_abort_world:
  assumes "abortable nt" and "is_AbortTransition e" and "can_be_cloned w snap"
  shows "snd (catch_abort S T nt ctx r snap e w) =
     w\<lparr>objects := (objects w)(next_ref w := copy_of (objects w snap)),
       next_ref := Suc (next_ref w),
       events := events w @ abort_calls nt S T ctx e (clock w (ticks w)),
       ticks := Suc (ticks w)\<rparr>"
proof -
  obtain c where nt: "nt = Own c"
    using assms(1) by (cases nt) (simp_all add: abortable_def)
  show ?thesis
  proof (cases "onAbort c")
    case None
    then show ?thesis
      using assms nt
      by (simp add: catch_abort_def structuredClone_succeeds new_Date_def edge_prop_def
          abort_calls_def Let_def)
  next
    case (Some h)
    then show ?thesis
      using assms nt
      by (cases h)
         (simp_all add: catch_abort_def structuredClone_succeeds new_Date_def edge_prop_def
            abort_calls_def error_payload_at_eq emit_def Let_def)
  qed
qed

lemma catch_abort_returns:
  assumes "\<forall>c f p. nt = Own c \<longrightarrow> onAbort c = Some (Supplied f) \<longrightarrow> f p = None"
    and "can_be_cloned w snap"
  shows "fst (fst (catch_abort S T nt ctx r snap e w)) = None"
proof (cases "abortable nt \<and> is_AbortTransition e")
  case False
  then show ?thesis by (simp add: catch_abort_else)
next
  case True
  then obtain c where nt: "nt = Own c"
    by (cases nt) (simp_all add: abortable_def)
  show ?thesis
  proof (cases "onAbort c")
    case None
    then show ?thesis
      using True nt assms(2)
      by (simp add: catch_abort_def structuredClone_succeeds new_Date_def edge_prop_def Let_def)
  next
    case (Some h)
    then show ?thesis
      using True nt assms
      by (cases h)
         (simp_all add: catch_abort_def structuredClone_succeeds new_Date_def edge_prop_def
            Let_def)
  qed
qed

lemma catch_onError_world:
  "snd (catch_onError sm S T ctx e w) =
     w\<lparr>events := events w @ error_calls sm S T ctx e (clock w (ticks w)),
       ticks := (if handler_of sm onError \<noteq> None then Suc (ticks w) else ticks w)\<rparr>"
  by (auto simp: catch_onError_def error_calls_def error_payload_at_eq new_Date_def emit_def
      Let_def split: option.splits)

lemma catch_onError_returns:
  assumes "\<forall>h e p. handler_of sm onError = Some h \<longrightarrow> h e p = None"
  shows "fst (catch_onError sm S T ctx e w) = None"
  using assms
  by (auto simp: catch_onError_def new_Date_def Let_def split: option.splits)

lemma transition_declared:
  assumes "in_state sm w entity S"
    and "map_of (table_view w (n_transitions (config sm))) S = Some rw"
  shows "transition sm entity T ctx w =
     (case attempt sm S T rw entity ctx w of
        None \<Rightarrow> (Rejected (DataCloneError ''The object could not be cloned.''), w)
      | Some (None, w2) \<Rightarrow> (Resolved, w2)
      | Some (Some e, w2) \<Rightarrow> catch_block sm S T (js_get rw T) ctx entity (next_ref w) e w2)"
proof (cases "can_be_cloned w entity")
  case True
  then show ?thesis
    using assms
    by (simp add: transition_def in_state_def attempt_cloned js_get_own
        structuredClone_succeeds Let_def)
next
  case False
  then show ?thesis
    using assms
    by (simp add: transition_def in_state_def attempt_refused js_get_own
        structuredClone_fails Let_def)
qed

lemma catch_block_world:
  assumes "fst (catch_invalid sm S T ctx e w) = None"
    and "fst (fst (catch_abort S T nt ctx r snap e (snd (catch_invalid sm S T ctx e w)))) = None"
  shows "snd (catch_block sm S T nt ctx r snap e w) =
     snd (catch_onError sm S T ctx e
            (snd (catch_abort S T nt ctx r snap e (snd (catch_invalid sm S T ctx e w)))))"
    and "fst (catch_block sm S T nt ctx r snap e w) =
     (case fst (catch_onError sm S T ctx e
            (snd (catch_abort S T nt ctx r snap e (snd (catch_invalid sm S T ctx e w))))) of
        None \<Rightarrow> Resolved | Some x \<Rightarrow> Rejected x)"
  using assms
  by (auto simp: catch_block_def split: prod.splits option.splits)

lemma catch_block_resolves:
  assumes "\<forall>h p. handler_of sm onInvalidTransition = Some h \<longrightarrow> h p = None"
    and "\<forall>c f p. nt = Own c \<longrightarrow> onAbort c = Some (Supplied f) \<longrightarrow> f p = None"
    and "\<forall>h e p. handler_of sm onError = Some h \<longrightarrow> h e p = None"
    and "can_be_cloned w snap"
  shows "fst (catch_block sm S T nt ctx r snap e w) = Resolved"
proof -
  have c1: "fst (catch_invalid sm S T ctx e w) = None"
    by (rule catch_invalid_returns [OF assms(1)])
  have c2: "fst (fst (catch_abort S T nt ctx r snap e (snd (catch_invalid sm S T ctx e w))))
      = None"
    by (rule catch_abort_returns [OF assms(2)]) (simp add: assms(4))
  show ?thesis
    by (simp add: catch_block_world(2) [OF c1 c2] catch_onError_returns [OF assms(3)])
qed

lemma catch_block_events:
  assumes "fst (catch_invalid sm S T ctx e w) = None"
    and "fst (fst (catch_abort S T nt ctx r snap e (snd (catch_invalid sm S T ctx e w)))) = None"
    and "abortable nt \<and> is_AbortTransition e \<longrightarrow> can_be_cloned w snap"
  shows "events (snd (catch_block sm S T nt ctx r snap e w)) =
     events w
       @ invalid_calls sm S T ctx e (clock w (ticks w))
       @ (if abortable nt \<and> is_AbortTransition e
          then abort_calls nt S T ctx e (clock w (ticks w))
          else [ConsoleLog notice (Some e)])
       @ error_calls sm S T ctx e
           (clock w (if is_InvalidTransition e \<or> abortable nt \<and> is_AbortTransition e
                     then Suc (ticks w) else ticks w))"
proof (cases "abortable nt \<and> is_AbortTransition e")
  case True
  then have ni: "\<not> is_InvalidTransition e"
    by (simp add: abort_not_invalid)
  show ?thesis
    using True assms(3)
    by (simp add: catch_block_world(1) [OF assms(1,2)] catch_onError_world catch_abort_world
        catch_invalid_skips [OF ni] invalid_calls_def ni)
next
  case False
  show ?thesis
    using False
    by (auto simp: catch_block_world(1) [OF assms(1,2)] catch_onError_world
        catch_abort_else [OF False] catch_invalid_world emit_def)
qed

lemma catch_block_objects:
  assumes "fst (catch_invalid sm S T ctx e w) = None"
    and "fst (fst (catch_abort S T nt ctx r snap e (snd (catch_invalid sm S T ctx e w)))) = None"
    and "abortable nt \<and> is_AbortTransition e \<longrightarrow> can_be_cloned w snap"
  shows "objects (snd (catch_block sm S T nt ctx r snap e w)) =
     (if abortable nt \<and> is_AbortTransition e
      then (objects w)(next_ref w := copy_of (objects w snap)) else objects w)"
proof (cases "abortable nt \<and> is_AbortTransition e")
  case True
  then have ni: "\<not> is_InvalidTransition e"
    by (simp add: abort_not_invalid)
  show ?thesis
    using True assms(3)
    by (simp add: catch_block_world(1) [OF assms(1,2)] catch_onError_world catch_abort_world
        catch_invalid_skips [OF ni])
next
  case False
  show ?thesis
    using False
    by (auto simp: catch_block_world(1) [OF assms(1,2)] catch_onError_world
        catch_abort_else [OF False] catch_invalid_world emit_def)
qed

lemma filter_abort_calls:
  "filter is_OnAbortCalled (abort_calls nt S T ctx e d) =
     (case nt of
        Own c \<Rightarrow> (if onAbort c = None then []
                  else [OnAbortCalled (error_payload_at S T ctx e ''Aborting transition.'' d)])
      | _ \<Rightarrow> [])"
  by (simp add: abort_calls_def split: lookup.splits option.splits abort_handler.splits)

lemma catch_block_onAbort_calls:
  assumes "can_be_cloned w snap"
  shows "filter is_OnAbortCalled (events (snd (catch_block sm S T nt ctx r snap e w))) =
     filter is_OnAbortCalled (events w)
       @ (if abortable nt \<and> is_AbortTransition e
          then filter is_OnAbortCalled (abort_calls nt S T ctx e (clock w (ticks w)))
          else [])"
proof -
  obtain x1 w1 where c1: "catch_invalid sm S T ctx e w = (x1, w1)"
    by (cases "catch_invalid sm S T ctx e w")
  obtain x2 r2 w2 where c2: "catch_abort S T nt ctx r snap e w1 = ((x2, r2), w2)"
    by (cases "catch_abort S T nt ctx r snap e w1") auto
  obtain x3 w3 where c3: "catch_onError sm S T ctx e w2 = (x3, w3)"
    by (cases "catch_onError sm S T ctx e w2")
  have e3: "filter is_OnAbortCalled (events w3) = filter is_OnAbortCalled (events w2)"
    using catch_onError_world [of sm S T ctx e w2] c3 by (simp add: error_calls_def)
  show ?thesis
  proof (cases "abortable nt \<and> is_AbortTransition e")
    case True
    then have ni: "\<not> is_InvalidTransition e"
      by (simp add: abort_not_invalid)
    have w1: "x1 = None" "w1 = w"
      using c1 catch_invalid_skips [OF ni, of sm S T ctx w] by simp_all
    have e2: "events w2 = events w @ abort_calls nt S T ctx e (clock w (ticks w))"
      using catch_abort_world [of nt e w snap S T ctx r] True c2 w1 assms by simp
    have c2': "catch_abort S T nt ctx r snap e w = ((x2, r2), w2)"
      using c2 w1 by simp
    show ?thesis
      using True by (simp add: catch_block_def c1 c2' c3 w1 e2 e3 split: option.splits)
  next
    case False
    have e1: "filter is_OnAbortCalled (events w1) = filter is_OnAbortCalled (events w)"
      using catch_invalid_world [of sm S T ctx e w] c1 by (simp add: invalid_calls_def)
    have e2: "events w2 = events w1 @ [ConsoleLog notice (Some e)]"
      using catch_abort_else [OF False, of S T ctx r snap w1] c2 by (simp add: emit_def)
    show ?thesis
      using False by (auto simp: catch_block_def c1 c2 c3 e1 e2 e3 split: option.splits)
  qed
qed

subsection \<open>The constructor\<close>

lemma install_default_absorbs:
  "install_default a b (install_default tK nS c) = install_default tK nS c"
  by (simp add: install_default_def)

lemma isAbortable_install_default: "isAbortable (install_default tK nS c) = isAbortable c"
  by (simp add: install_default_def)

lemma onAbort_install_default:
  "isAbortable c = Some True \<Longrightarrow> onAbort (install_default tK nS c) \<noteq> None"
  by (simp add: install_default_def)


lemma visit_append: "visit (xs @ ys) es = visit ys (visit xs es)"
  by (induction xs arbitrary: es) auto

lemma forEach_nextStates_visit:
  "forEach_nextStates tK rw es = visit (map (\<lambda>(nS, er). (tK, nS, er)) rw) es"
  by (induction rw arbitrary: es) auto

lemma forEach_transitionKeys_visit: "forEach_transitionKeys tb es = visit (slots tb) es"
  by (induction tb arbitrary: es)
     (auto simp: slots_def forEach_nextStates_visit visit_append)

lemma slots_iff:
  "(tK, nS, er) \<in> set (slots tb) \<longleftrightarrow> (\<exists>rw. (tK, rw) \<in> set tb \<and> (nS, er) \<in> set rw)"
  by (auto simp: slots_def)

lemma visit_untouched: "er \<notin> (snd \<circ> snd) ` set sl \<Longrightarrow> visit sl es er = es er"
  by (induction sl arbitrary: es) auto

lemma visit_keeps_installed:
  "es er = install_default tK nS c \<Longrightarrow> visit sl es er = install_default tK nS c"
proof (induction sl arbitrary: es)
  case Nil
  then show ?case by simp
next
  case (Cons x sl)
  obtain a b r where x: "x = (a, b, r)"
    by (cases x)
  have "(es(r := install_default a b (es r))) er = install_default tK nS c"
    using Cons.prems by (auto simp: install_default_absorbs)
  then show ?case
    using Cons.IH x by simp
qed

lemma visit_first:
  assumes "er \<notin> (snd \<circ> snd) ` set pre"
  shows "visit (pre @ (tK, nS, er) # post) es er = install_default tK nS (es er)"
proof -
  have "visit pre es er = es er"
    using assms by (rule visit_untouched)
  then have "(visit [(tK, nS, er)] (visit pre es)) er = install_default tK nS (es er)"
    by simp
  then have "visit post (visit [(tK, nS, er)] (visit pre es)) er = install_default tK nS (es er)"
    by (rule visit_keeps_installed)
  then show ?thesis
    by (simp add: visit_append)
qed

lemma visit_visited:
  assumes "(tK, nS, er) \<in> set sl"
  shows "\<exists>a b. visit sl es er = install_default a b (es er)"
proof -
  have "er \<in> set (map (snd \<circ> snd) sl)"
    using assms by force
  from split_list_first [OF this]
  obtain ys zs where split: "map (snd \<circ> snd) sl = ys @ er # zs" and first: "er \<notin> set ys"
    by blast
  then obtain pre x post where sl: "sl = pre @ x # post" and pre: "ys = map (snd \<circ> snd) pre"
    and x: "er = (snd \<circ> snd) x"
    by (auto simp: map_eq_append_conv)
  obtain a b where "x = (a, b, er)"
    using x by (cases x) auto
  then have "visit sl es er = install_default a b (es er)"
    using visit_first [of er pre a b post es] first pre sl by simp
  then show ?thesis by blast
qed

lemma constructor_defaults_installed:
  "defaults_installed (snd (constructor cfg w)) (transitions cfg)"
proof -
  have "onAbort (visit (slots (tables w (transitions cfg))) (edges w) er) \<noteq> None"
    if slot: "(tK, nS, er) \<in> set (slots (tables w (transitions cfg)))"
      and marked: "isAbortable (visit (slots (tables w (transitions cfg))) (edges w) er) = Some True"
    for tK nS er
  proof -
    obtain a b where v: "visit (slots (tables w (transitions cfg))) (edges w) er
        = install_default a b (edges w er)"
      using visit_visited [OF slot] by blast
    then have "isAbortable (edges w er) = Some True"
      using marked by (simp add: isAbortable_install_default)
    then show ?thesis
      by (simp add: v onAbort_install_default)
  qed
  then show ?thesis
    by (auto simp: defaults_installed_def constructor_def forEach_transitionKeys_visit)
qed

lemma table_view_edge:
  assumes "map_of (table_view w r) S = Some rw" and "map_of rw T = Some c"
  shows "\<exists>er. (S, T, er) \<in> set (slots (tables w r)) \<and> c = edges w er"
proof -
  have "map_of (table_view w r) S = map_option (row_view w) (map_of (tables w r) S)"
    by (simp add: table_view_def map_of_map)
  then obtain rr where rr: "map_of (tables w r) S = Some rr" and rw: "rw = row_view w rr"
    using assms(1) by (cases "map_of (tables w r) S") auto
  have "map_of rw T = map_option (edges w) (map_of rr T)"
    by (simp add: rw row_view_def map_of_map)
  then obtain er where er: "map_of rr T = Some er" and c: "c = edges w er"
    using assms(2) by (cases "map_of rr T") auto
  have "(S, T, er) \<in> set (slots (tables w r))"
    using map_of_SomeD [OF rr] map_of_SomeD [OF er] by (auto simp: slots_iff)
  with c show ?thesis by blast
qed

lemma defaults_installed_edge:
  assumes "defaults_installed w r"
    and "map_of (table_view w r) S = Some rw" and "map_of rw T = Some c"
    and "isAbortable c = Some True"
  shows "onAbort c \<noteq> None"
proof -
  obtain er where "(S, T, er) \<in> set (slots (tables w r))" and "c = edges w er"
    using table_view_edge [OF assms(2,3)] by blast
  then show ?thesis
    using assms(1,4) by (auto simp: defaults_installed_def)
qed

subsection \<open>The configuration is only read\<close>





subsection \<open>A target the row does not answer to\<close>

text \<open>
  When the target is neither a key of the row nor a name the row inherits, validation
  raises InvalidTransition before any hook: the catch block calls
  \<^verbatim>\<open>onInvalidTransition\<close> with the payload of \<open>S\<close> and \<open>T\<close>, logs the notice and calls
  \<^verbatim>\<open>onError\<close>; no hook of either phase runs and the entity is left as it was.
\<close>

lemma undeclared_target_is_rejected:
  assumes state: "in_state sm w entity S"
    and row: "map_of (table_view w (n_transitions (config sm))) S = Some rw"
    and snapshot: "can_be_cloned w entity"
    and undeclared: "T \<notin> set (map fst rw)"
    and not_inherited: "T \<notin> set object_prototype_names"
    and invalid_returns: "\<forall>h p. handler_of sm onInvalidTransition = Some h \<longrightarrow> h p = None"
    and signal: "e = InvalidTransition ''Invalid Transaction''
                   \<lparr>tp_from = Some S, tp_to = Some T, tp_message = Some ''Invalid Transaction'',
                    tp_timestamp = Some (Some (clock w (ticks w))), tp_meta = context\<rparr>"
  shows "events (snd (transition sm entity T context w)) =
       events w
         @ invalid_calls sm S T context e (clock w (Suc (ticks w)))
         @ [ConsoleLog ''Abort Transition triggered but skipped over transition {isAbortable:false} ''
              (Some e)]
         @ error_calls sm S T context e (clock w (Suc (Suc (ticks w)))) \<and>
     objects (snd (transition sm entity T context w)) entity = objects w entity"
proof -
  let ?w1 = "w\<lparr>objects := (objects w)(next_ref w := copy_of (objects w entity)),
               next_ref := Suc (next_ref w)\<rparr>"
  let ?w2 = "?w1\<lparr>ticks := Suc (ticks w)\<rparr>"
  have allocated: "entity \<noteq> next_ref w"
    using state by (auto simp: in_state_def)
  have nt: "js_get rw T = Undefined"
    using undeclared not_inherited
    by (simp add: js_get_def map_of_eq_None_iff image_iff split: option.splits)
  have not_in: "\<not> js_in T rw"
    using undeclared not_inherited by (simp add: js_in_def)
  have body: "attempt sm S T rw entity context w = Some (Some e, ?w2)"
    using not_in
    by (simp add: attempt_cloned [OF snapshot] try_block_def preTransition_def new_Date_def
        signal new_InvalidTransition_def message_or_def details_of_def)
  have inv: "is_InvalidTransition e"
    by (simp add: signal)
  have na: "\<not> (abortable (js_get rw T) \<and> is_AbortTransition e)"
    by (simp add: nt abortable_def)
  have c1: "fst (catch_invalid sm S T context e ?w2) = None"
    by (rule catch_invalid_returns [OF invalid_returns])
  have c2: "fst (fst (catch_abort S T (js_get rw T) context entity (next_ref w) e
                        (snd (catch_invalid sm S T context e ?w2)))) = None"
    by (simp add: catch_abort_else [OF na])
  have c3: "abortable (js_get rw T) \<and> is_AbortTransition e
      \<longrightarrow> can_be_cloned ?w2 (next_ref w)"
    using na by blast
  have tr: "snd (transition sm entity T context w) =
      snd (catch_block sm S T (js_get rw T) context entity (next_ref w) e ?w2)"
    by (simp add: transition_declared [OF state row] body)
  have ev: "events (snd (transition sm entity T context w)) =
       events w
         @ invalid_calls sm S T context e (clock w (Suc (ticks w)))
         @ [ConsoleLog ''Abort Transition triggered but skipped over transition {isAbortable:false} ''
              (Some e)]
         @ error_calls sm S T context e (clock w (Suc (Suc (ticks w))))"
    unfolding tr catch_block_events [OF c1 c2 c3]
    using na inv by (auto simp: notice_def)
  have ob: "objects (snd (transition sm entity T context w)) entity = objects w entity"
    unfolding tr catch_block_objects [OF c1 c2 c3]
    using na allocated by auto
  show ?thesis
    using ev ob by simp
qed

subsection \<open>The abort signal on an abortable edge\<close>

text \<open>
  When \<^verbatim>\<open>onBefore\<close> of an abortable edge raises the abort signal and \<^verbatim>\<open>onAbort\<close> returns, the
  engine calls \<^verbatim>\<open>onBefore\<close>, then \<^verbatim>\<open>onAbort\<close>, then \<^verbatim>\<open>onError\<close>, and writes nothing into
  the entity: the caller's object is as \<^verbatim>\<open>onBefore\<close> left it, while the snapshot and the
  copy made of it in the catch block both hold the content from before the call.
\<close>

lemma abort_on_abortable_edge:
  assumes state: "in_state sm w entity S"
    and row: "map_of (table_view w (n_transitions (config sm))) S = Some rw"
    and edge: "map_of rw T = Some c"
    and snapshot: "can_be_cloned w entity"
    and marked: "isAbortable c = Some True"
    and hook: "onBefore c = Some f"
    and raises: "snd (f (objects w entity)) = Some e"
    and signal: "is_AbortTransition e"
    and abort_returns: "\<forall>g p. onAbort c = Some (Supplied g) \<longrightarrow> g p = None"
  shows "events (snd (transition sm entity T context w)) =
       events w @ [OnBeforeCalled entity]
         @ abort_calls (Own c) S T context e (clock w (ticks w))
         @ error_calls sm S T context e (clock w (Suc (ticks w))) \<and>
     objects (snd (transition sm entity T context w)) entity = fst (f (objects w entity)) \<and>
     objects (snd (transition sm entity T context w)) (next_ref w)
       = copy_of (objects w entity) \<and>
     objects (snd (transition sm entity T context w)) (Suc (next_ref w))
       = copy_of (objects w entity)"
proof -
  let ?w1 = "w\<lparr>objects := (objects w)(next_ref w := copy_of (objects w entity)),
               next_ref := Suc (next_ref w)\<rparr>"
  have allocated: "entity < next_ref w"
    using state by (simp add: in_state_def)
  have ob1: "objects ?w1 entity = objects w entity"
    using allocated by simp
  obtain w2 where pre: "preTransition sm S T (Own c) rw entity context ?w1 = (Some e, w2)"
    and w2: "events w2 = events w @ [OnBeforeCalled entity]"
      "objects w2 = (objects w)(next_ref w := copy_of (objects w entity),
                                entity := fst (f (objects w entity)))"
      "next_ref w2 = Suc (next_ref w)" "clock w2 = clock w" "ticks w2 = ticks w"
    using preTransition_onBefore_raises [OF js_in_own [OF edge] hook, of ?w1 entity e]
      raises ob1 by simp
  have body: "attempt sm S T rw entity context w = Some (Some e, w2)"
    by (simp add: attempt_cloned [OF snapshot] try_block_def js_get_own [OF edge] pre)
  have kept: "can_be_cloned w2 (next_ref w)"
    by (rule snapshot_kept(2) [OF allocated body])
  have ni: "\<not> is_InvalidTransition e"
    using signal by (rule abort_not_invalid)
  have nt: "js_get rw T = Own c"
    by (rule js_get_own [OF edge])
  have ab: "abortable (Own c)"
    using marked by (simp add: abortable_def)
  have c1: "fst (catch_invalid sm S T context e w2) = None"
    by (simp add: catch_invalid_skips [OF ni])
  have c2: "fst (fst (catch_abort S T (Own c) context entity (next_ref w) e
                        (snd (catch_invalid sm S T context e w2)))) = None"
    using abort_returns kept by (intro catch_abort_returns) simp_all
  have c3: "abortable (Own c) \<and> is_AbortTransition e \<longrightarrow> can_be_cloned w2 (next_ref w)"
    using kept by simp
  have tr: "snd (transition sm entity T context w) =
      snd (catch_block sm S T (Own c) context entity (next_ref w) e w2)"
    by (simp add: transition_declared [OF state row] body nt)
  have ev: "events (snd (transition sm entity T context w)) =
       events w @ [OnBeforeCalled entity]
         @ abort_calls (Own c) S T context e (clock w (ticks w))
         @ error_calls sm S T context e (clock w (Suc (ticks w)))"
    unfolding tr catch_block_events [OF c1 c2 c3]
    using ab signal ni by (simp add: w2 invalid_calls_def)
  have ob: "objects (snd (transition sm entity T context w)) =
      (objects w)(next_ref w := copy_of (objects w entity), entity := fst (f (objects w entity)),
                  Suc (next_ref w) := copy_of (objects w entity))"
    unfolding tr catch_block_objects [OF c1 c2 c3]
    using ab signal allocated by (simp add: w2)
  show ?thesis
    using ev allocated by (simp add: ob)
qed

section \<open>The successful transition\<close>




section \<open>When onAbort fires\<close>

text \<open>
  Claim C2, as stated, fails: the catch block tests the class of the error and the flag of
  the edge, not the phase that raised. On the abortable edge whose \<^verbatim>\<open>onAfter\<close> raises
  the abort signal, the state is written, \<^verbatim>\<open>onAfter\<close> is called, and then \<^verbatim>\<open>onAbort\<close>
  fires; the state field stays at \<open>running\<close>.
\<close>

theorem onAbort_fires_after_commit:
  "fst (transition late_machine 0 ''running'' JUndefined late_world) = Resolved \<and>
   events (snd (transition late_machine 0 ''running'' JUndefined late_world))
     = [BeforeTransitionCalled 0 (mk_payload ''idle'' ''running'' JUndefined 0),
        StateWritten 0 ''status'' ''running'',
        OnAfterCalled 0,
        OnAbortCalled (mk_error_payload ''idle'' ''running'' ''Payment not received'' 1 JUndefined),
        ConsoleLog ''Aborting transition from idle to running'' None,
        OnErrorCalled payment_abort
          (mk_error_payload ''idle'' ''running'' ''Payment not received'' 2 JUndefined)] \<and>
   map_of (props (objects (snd (transition late_machine 0 ''running'' JUndefined late_world)) 0)) ''status''
     = Some (JStr ''running'')"
  by (simp add: run_defs fixture_defs example_defs)

text \<open>
  Claim C2, amended. For an entity in a declared state and a configuration as the
  constructor leaves it, where every edge marked abortable has an \<^verbatim>\<open>onAbort\<close>, a call of
  \<^verbatim>\<open>transition\<close> adds at most one call of \<^verbatim>\<open>onAbort\<close>, and it adds one if and only if the
  edge is marked abortable and the error the \<^verbatim>\<open>try\<close> body threw is the abort signal,
  whichever phase raised it.
\<close>

theorem onAbort_fires_iff_abort_signal:
  assumes state: "in_state sm w entity S"
    and row: "map_of (table_view w (n_transitions (config sm))) S = Some rw"
    and constructed: "defaults_installed w (n_transitions (config sm))"
  shows "\<exists>fired.
     filter is_OnAbortCalled (events (snd (transition sm entity T context w)))
       = filter is_OnAbortCalled (events w) @ fired \<and>
     (fired = [] \<or> (\<exists>p. fired = [OnAbortCalled p])) \<and>
     (fired \<noteq> [] \<longleftrightarrow>
        abortable (js_get rw T) \<and>
        (\<exists>e w2. attempt sm S T rw entity context w = Some (Some e, w2) \<and>
                is_AbortTransition e))"
proof (cases "attempt sm S T rw entity context w")
  case None
  then have "filter is_OnAbortCalled (events (snd (transition sm entity T context w)))
      = filter is_OnAbortCalled (events w) @ []"
    by (simp add: transition_declared [OF state row])
  then show ?thesis
    using None by (intro exI [of _ "[]"]) simp
next
  case (Some x)
  obtain res w2 where body: "attempt sm S T rw entity context w = Some (res, w2)"
    using Some by (cases x) simp
  have allocated: "entity < next_ref w"
    using state by (simp add: in_state_def)
  have kept: "can_be_cloned w2 (next_ref w)"
    by (rule snapshot_kept(2) [OF allocated body])
  have before: "filter is_OnAbortCalled (events w2) = filter is_OnAbortCalled (events w)"
    using try_block_filter [of is_OnAbortCalled sm S T "js_get rw T" rw entity "context"
        "w\<lparr>objects := (objects w)(next_ref w := copy_of (objects w entity)),
           next_ref := Suc (next_ref w)\<rparr>"] body
    by (simp add: attempt_cloned [OF attempt_Some_cloned [OF body]])
  show ?thesis
  proof (cases res)
    case None
    then have "filter is_OnAbortCalled (events (snd (transition sm entity T context w)))
        = filter is_OnAbortCalled (events w) @ []"
      using body before by (simp add: transition_declared [OF state row])
    then show ?thesis
      using body None by (intro exI [of _ "[]"]) simp
  next
    case (Some e)
    let ?fired = "if abortable (js_get rw T) \<and> is_AbortTransition e
          then filter is_OnAbortCalled
                 (abort_calls (js_get rw T) S T context e (clock w2 (ticks w2)))
          else []"
    have ev: "filter is_OnAbortCalled (events (snd (transition sm entity T context w)))
        = filter is_OnAbortCalled (events w) @ ?fired"
      using body Some before
      by (simp add: transition_declared [OF state row] catch_block_onAbort_calls [OF kept])
    have installed: "onAbort c \<noteq> None"
      if "js_get rw T = Own c" and "abortable (js_get rw T)" for c
    proof -
      have "map_of rw T = Some c"
        using that(1) by (simp add: js_get_def split: option.splits if_splits)
      moreover have "isAbortable c = Some True"
        using that by (simp add: abortable_def)
      ultimately show ?thesis
        using defaults_installed_edge [OF constructed row] by simp
    qed
    have shape: "?fired = [] \<or> (\<exists>p. ?fired = [OnAbortCalled p])"
      by (simp add: filter_abort_calls split: lookup.splits)
    have iff: "?fired \<noteq> [] \<longleftrightarrow> abortable (js_get rw T) \<and> is_AbortTransition e"
      using installed
      by (cases "js_get rw T") (auto simp: filter_abort_calls abortable_def)
    show ?thesis
      using ev shape iff body Some
      by (intro exI [of _ ?fired]) simp
  qed
qed

text \<open>
  On the abortable edge whose \<^verbatim>\<open>onBefore\<close> raises the abort signal, the equivalence gives
  a call of \<^verbatim>\<open>onAbort\<close>.
\<close>

theorem onAbort_fires_iff_abort_signal_witness:
  "filter is_OnAbortCalled (events (snd (transition veto_machine 0 ''running'' JUndefined veto_world)))
     \<noteq> []"
proof -
  have state: "in_state veto_machine veto_world 0 ''idle''"
    by (simp add: in_state_def fixture_defs example_defs)
  let ?rw = "[(''running'', veto_edge\<lparr>onAbort := Some (DefaultOnAbort ''idle'' ''running'')\<rparr>)]"
  have row: "map_of (table_view veto_world (n_transitions (config veto_machine))) ''idle''
      = Some ?rw"
    by (simp add: fixture_defs example_defs)
  have "defaults_installed (snd (constructor (machine_for (Some quiet_hooks))
            (start_world single_refs (single veto_edge) processor)))
          (transitions (machine_for (Some quiet_hooks)))"
    by (rule constructor_defaults_installed)
  then have constructed: "defaults_installed veto_world (n_transitions (config veto_machine))"
    by (simp add: veto_machine_def veto_world_def built_machine_def built_world_def
        constructor_def machine_for_def)
  have cond: "abortable (js_get ?rw ''running'') \<and>
      (\<exists>e w2. attempt veto_machine ''idle'' ''running'' ?rw 0 JUndefined veto_world
                 = Some (Some e, w2) \<and> is_AbortTransition e)"
    by (simp add: attempt_def run_defs fixture_defs example_defs)
  have "events veto_world = []"
    by (simp add: fixture_defs example_defs)
  with onAbort_fires_iff_abort_signal [OF state row constructed, of "''running''" JUndefined]
    cond
  show ?thesis
    by auto
qed

section \<open>Rollback on abort\<close>

text \<open>
  Claim C3 against the code. On the abortable edge whose \<^verbatim>\<open>onBefore\<close> sets \<^verbatim>\<open>paid\<close> to
  false and then raises the abort signal, the call resolves, \<^verbatim>\<open>onAbort\<close> and \<^verbatim>\<open>onError\<close>
  are called and no after-hook is, and the state field is untouched. But the object of
  the caller (reference 0) keeps \<^verbatim>\<open>paid\<close> false: the snapshot (reference 1) went into a
  second copy (reference 2) that only the parameter variable refers to. So the caller's
  entity differs from the snapshot.
\<close>

theorem abort_keeps_hook_mutation:
  "fst (transition veto_machine 0 ''running'' JUndefined veto_world) = Resolved \<and>
   events (snd (transition veto_machine 0 ''running'' JUndefined veto_world))
     = [OnBeforeCalled 0,
        OnAbortCalled (mk_error_payload ''idle'' ''running'' ''Payment not received'' 0 JUndefined),
        ConsoleLog ''Aborting transition from idle to running'' None,
        OnErrorCalled payment_abort
          (mk_error_payload ''idle'' ''running'' ''Payment not received'' 1 JUndefined)] \<and>
   objects (snd (transition veto_machine 0 ''running'' JUndefined veto_world)) 0
     = processor\<lparr>props := [(''status'', JStr ''idle''), (''paid'', JBool False)]\<rparr> \<and>
   objects (snd (transition veto_machine 0 ''running'' JUndefined veto_world)) 1 = processor \<and>
   objects (snd (transition veto_machine 0 ''running'' JUndefined veto_world)) 2 = processor \<and>
   objects (snd (transition veto_machine 0 ''running'' JUndefined veto_world)) 0
     \<noteq> objects (snd (transition veto_machine 0 ''running'' JUndefined veto_world)) 1"
  by (simp add: run_defs fixture_defs example_defs)

section \<open>The undeclared target\<close>

text \<open>
  Claim C4 against the code. \<open>toString\<close> is not a key of the row of \<open>idle\<close>, yet the test
  \<^verbatim>\<open>nextState in allowedNextStates\<close> holds for it, because the row inherits that name.
  The call raises no InvalidTransition: the global before-hook runs, the state field is
  set to \<open>toString\<close>, the global after-hooks run, and \<^verbatim>\<open>onInvalidTransition\<close> is not
  called.
\<close>

theorem inherited_name_passes_validation:
  "map_of (tables lifecycle_world 0) ''idle'' = Some [(''running'', 0)] \<and>
   fst (transition lifecycle_machine 0 ''toString'' JUndefined lifecycle_world) = Resolved \<and>
   events (snd (transition lifecycle_machine 0 ''toString'' JUndefined lifecycle_world))
     = [BeforeTransitionCalled 0 (mk_payload ''idle'' ''toString'' JUndefined 0),
        StateWritten 0 ''status'' ''toString'',
        AfterTransitionCalled 0 (mk_payload ''idle'' ''toString'' JUndefined 1),
        AfterTransitionCalled 1 (mk_payload ''idle'' ''toString'' JUndefined 1)] \<and>
   map_of (props (objects (snd (transition lifecycle_machine 0 ''toString'' JUndefined lifecycle_world)) 0))
     ''status'' = Some (JStr ''toString'')"
  by (simp add: run_defs fixture_defs example_defs)

section \<open>What reaches the caller\<close>

text \<open>
  Claim C5, as stated, fails: the two lookups come before the \<^verbatim>\<open>try\<close>. For an entity in
  \<open>completed\<close>, a state with no row in the table, the read of
  \<^verbatim>\<open>allowedNextStates[nextState]\<close> throws: the promise rejects with that TypeError and no
  hook is called.
\<close>

theorem transition_rejects_for_state_without_row:
  "fst (transition lifecycle_machine 0 ''idle'' JUndefined finished_world)
     = Rejected (TypeError ''Cannot read properties of undefined'') \<and>
   events (snd (transition lifecycle_machine 0 ''idle'' JUndefined finished_world)) = []"
  by (simp add: run_defs fixture_defs example_defs)

text \<open>
  Claim C5, amended. Let the state of the entity be a key of the table, let the entity
  hold nothing \<^verbatim>\<open>structuredClone\<close> refuses, and let none of the handlers
  \<^verbatim>\<open>onInvalidTransition\<close>, \<^verbatim>\<open>onAbort\<close> of the edge and \<^verbatim>\<open>onError\<close> throw. Then for every target
  the \<^verbatim>\<open>try\<close> body runs and the call resolves. When the body throws nothing, the call
  leaves what the body left. When the body throws \<open>e\<close>, whatever the validation, the
  hooks, the commit or the post-phase raised, the engine adds to what the body did
  exactly this: the call of \<^verbatim>\<open>onInvalidTransition\<close> if \<open>e\<close> is that signal and the handler
  is configured; the call of \<^verbatim>\<open>onAbort\<close> if the edge is abortable and \<open>e\<close> is the abort
  signal, the logged notice otherwise; the call of \<^verbatim>\<open>onError\<close> if it is configured. It
  does not write to the entity.
\<close>

theorem transition_resolves:
  assumes state: "in_state sm w entity S"
    and row: "map_of (table_view w (n_transitions (config sm))) S = Some rw"
    and snapshot: "can_be_cloned w entity"
    and invalid_returns: "\<forall>h p. handler_of sm onInvalidTransition = Some h \<longrightarrow> h p = None"
    and abort_returns:
      "\<forall>c f p. js_get rw T = Own c \<longrightarrow> onAbort c = Some (Supplied f) \<longrightarrow> f p = None"
    and error_returns: "\<forall>h e p. handler_of sm onError = Some h \<longrightarrow> h e p = None"
  shows "fst (transition sm entity T context w) = Resolved \<and>
     (\<exists>res w2.
        attempt sm S T rw entity context w = Some (res, w2) \<and>
        (case res of
           None \<Rightarrow> snd (transition sm entity T context w) = w2
         | Some e \<Rightarrow>
             events (snd (transition sm entity T context w)) =
               events w2
                 @ invalid_calls sm S T context e (clock w2 (ticks w2))
                 @ (if abortable (js_get rw T) \<and> is_AbortTransition e
                    then abort_calls (js_get rw T) S T context e (clock w2 (ticks w2))
                    else [ConsoleLog ''Abort Transition triggered but skipped over transition {isAbortable:false} ''
                            (Some e)])
                 @ error_calls sm S T context e
                     (clock w2 (if is_InvalidTransition e \<or>
                                   abortable (js_get rw T) \<and> is_AbortTransition e
                                then Suc (ticks w2) else ticks w2)) \<and>
             objects (snd (transition sm entity T context w)) entity = objects w2 entity))"
proof -
  let ?nt = "js_get rw T"
  obtain res w2 where body: "attempt sm S T rw entity context w = Some (res, w2)"
    by (cases "try_block sm S T ?nt rw entity context
                 (w\<lparr>objects := (objects w)(next_ref w := copy_of (objects w entity)),
                    next_ref := Suc (next_ref w)\<rparr>)")
       (simp add: attempt_cloned [OF snapshot])
  have allocated: "entity < next_ref w"
    using state by (simp add: in_state_def)
  have kept: "can_be_cloned w2 (next_ref w)" and fresh: "next_ref w2 = Suc (next_ref w)"
    using snapshot_kept [OF allocated body] by simp_all
  show ?thesis
  proof (cases res)
    case None
    then show ?thesis
      using body by (simp add: transition_declared [OF state row])
  next
    case (Some e)
    have c1: "fst (catch_invalid sm S T context e w2) = None"
      by (rule catch_invalid_returns [OF invalid_returns])
    have c2: "fst (fst (catch_abort S T ?nt context entity (next_ref w) e
                          (snd (catch_invalid sm S T context e w2)))) = None"
      by (rule catch_abort_returns [OF abort_returns]) (simp add: kept)
    have c3: "abortable ?nt \<and> is_AbortTransition e \<longrightarrow> can_be_cloned w2 (next_ref w)"
      using kept by simp
    have tr: "transition sm entity T context w =
        catch_block sm S T ?nt context entity (next_ref w) e w2"
      using body Some by (simp add: transition_declared [OF state row])
    have resolved: "fst (transition sm entity T context w) = Resolved"
      unfolding tr
      by (rule catch_block_resolves [OF invalid_returns abort_returns error_returns kept])
    have ev: "events (snd (transition sm entity T context w)) =
        events w2
          @ invalid_calls sm S T context e (clock w2 (ticks w2))
          @ (if abortable ?nt \<and> is_AbortTransition e
             then abort_calls ?nt S T context e (clock w2 (ticks w2))
             else [ConsoleLog ''Abort Transition triggered but skipped over transition {isAbortable:false} ''
                     (Some e)])
          @ error_calls sm S T context e
              (clock w2 (if is_InvalidTransition e \<or> abortable ?nt \<and> is_AbortTransition e
                         then Suc (ticks w2) else ticks w2))"
      unfolding tr catch_block_events [OF c1 c2 c3] by (simp add: notice_def)
    have ob: "objects (snd (transition sm entity T context w)) entity = objects w2 entity"
      unfolding tr catch_block_objects [OF c1 c2 c3]
      using allocated fresh by simp
    show ?thesis
      using body Some resolved ev ob by simp
  qed
qed

text \<open>
  The abortable edge whose \<^verbatim>\<open>onBefore\<close> raises the abort signal: the call resolves, and
  after the call of \<^verbatim>\<open>onBefore\<close> come the call of \<^verbatim>\<open>onAbort\<close>, the line its default handler
  logs, and the call of \<^verbatim>\<open>onError\<close>.
\<close>

theorem transition_resolves_witness:
  "fst (transition veto_machine 0 ''running'' JUndefined veto_world) = Resolved \<and>
   events (snd (transition veto_machine 0 ''running'' JUndefined veto_world))
     = [OnBeforeCalled 0,
        OnAbortCalled
          \<lparr>ep_from = ''idle'', ep_to = ''running'', ep_message = ''Payment not received'',
           ep_timestamp = 0, ep_meta = JUndefined\<rparr>,
        ConsoleLog ''Aborting transition from idle to running'' None,
        OnErrorCalled payment_abort
          \<lparr>ep_from = ''idle'', ep_to = ''running'', ep_message = ''Payment not received'',
           ep_timestamp = 1, ep_meta = JUndefined\<rparr>]"
proof -
  let ?rw = "[(''running'', veto_edge\<lparr>onAbort := Some (DefaultOnAbort ''idle'' ''running'')\<rparr>)]"
  have state: "in_state veto_machine veto_world 0 ''idle''"
    by (simp add: in_state_def fixture_defs example_defs)
  have row: "map_of (table_view veto_world (n_transitions (config veto_machine))) ''idle''
      = Some ?rw"
    by (simp add: fixture_defs example_defs)
  have snapshot: "can_be_cloned veto_world 0"
    by (simp add: can_be_cloned_def fixture_defs example_defs)
  have h1: "\<forall>h p. handler_of veto_machine onInvalidTransition = Some h \<longrightarrow> h p = None"
    by (auto simp: handler_of_def fixture_defs example_defs)
  have h2: "\<forall>c f p. js_get ?rw ''running'' = Own c \<longrightarrow> onAbort c = Some (Supplied f) \<longrightarrow> f p = None"
    by (simp add: js_get_def)
  have h3: "\<forall>h e p. handler_of veto_machine onError = Some h \<longrightarrow> h e p = None"
    by (auto simp: handler_of_def fixture_defs example_defs)
  from transition_resolves [OF state row snapshot h1 h2 h3, of JUndefined]
  obtain res w2 where resolved: "fst (transition veto_machine 0 ''running'' JUndefined veto_world)
        = Resolved"
    and body: "attempt veto_machine ''idle'' ''running'' ?rw 0 JUndefined veto_world
        = Some (res, w2)"
    and caught: "case res of
           None \<Rightarrow> snd (transition veto_machine 0 ''running'' JUndefined veto_world) = w2
         | Some e \<Rightarrow>
             events (snd (transition veto_machine 0 ''running'' JUndefined veto_world)) =
               events w2
                 @ invalid_calls veto_machine ''idle'' ''running'' JUndefined e
                     (clock w2 (ticks w2))
                 @ (if abortable (js_get ?rw ''running'') \<and> is_AbortTransition e
                    then abort_calls (js_get ?rw ''running'') ''idle'' ''running'' JUndefined e
                           (clock w2 (ticks w2))
                    else [ConsoleLog ''Abort Transition triggered but skipped over transition {isAbortable:false} ''
                            (Some e)])
                 @ error_calls veto_machine ''idle'' ''running'' JUndefined e
                     (clock w2 (if is_InvalidTransition e \<or>
                                   abortable (js_get ?rw ''running'') \<and> is_AbortTransition e
                                then Suc (ticks w2) else ticks w2)) \<and>
             objects (snd (transition veto_machine 0 ''running'' JUndefined veto_world)) 0
               = objects w2 0"
    by blast
  have ran: "res = Some payment_abort" "events w2 = [OnBeforeCalled 0]" "ticks w2 = 0"
    "clock w2 = (\<lambda>n. n)"
    using body by (auto simp: attempt_def run_defs fixture_defs example_defs)
  have e: "is_AbortTransition payment_abort" "\<not> is_InvalidTransition payment_abort"
    "message payment_abort = ''Payment not received''"
    by (simp_all add: payment_abort_def new_AbortTransition_def message_or_def)
  have calls: "abortable (js_get ?rw ''running'')"
    "abort_calls (js_get ?rw ''running'') ''idle'' ''running'' JUndefined payment_abort d
      = [OnAbortCalled
           \<lparr>ep_from = ''idle'', ep_to = ''running'', ep_message = ''Payment not received'',
            ep_timestamp = d, ep_meta = JUndefined\<rparr>,
         ConsoleLog ''Aborting transition from idle to running'' None]"
    "error_calls veto_machine ''idle'' ''running'' JUndefined payment_abort d
      = [OnErrorCalled payment_abort
           \<lparr>ep_from = ''idle'', ep_to = ''running'', ep_message = ''Payment not received'',
            ep_timestamp = d, ep_meta = JUndefined\<rparr>]" for d
    by (simp_all add: js_get_def abortable_def abort_calls_def error_calls_def
        error_payload_at_def e handler_of_def veto_edge_def plain_edge_def veto_machine_def
        fixture_defs)
  show ?thesis
    using resolved caught by (simp add: ran e calls invalid_calls_def)
qed

section \<open>The abort signal on an edge that is not abortable\<close>

text \<open>
  Claim C6. Let the edge from \<open>S\<close> to \<open>T\<close> not be marked abortable and let its
  \<^verbatim>\<open>onBefore\<close> raise the abort signal \<open>e\<close>; the hook is reached, so the entity is one the
  snapshot could be taken of. Then the engine does exactly this: it calls \<^verbatim>\<open>onBefore\<close>,
  logs the line \<open>Abort Transition triggered but skipped over transition
  {isAbortable:false}\<close> together with \<open>e\<close>, and calls \<^verbatim>\<open>onError\<close> with \<open>e\<close> and the payload
  of \<open>S\<close>, \<open>T\<close>, the message of \<open>e\<close>, the time and the context when that handler is
  configured. \<^verbatim>\<open>onAbort\<close> is not called. Nothing is rolled back: the entity is as
  \<^verbatim>\<open>onBefore\<close> left it, and the only object allocated is the snapshot.
\<close>

theorem abort_ignored_on_non_abortable_edge:
  assumes state: "in_state sm w entity S"
    and row: "map_of (table_view w (n_transitions (config sm))) S = Some rw"
    and edge: "map_of rw T = Some c"
    and snapshot: "can_be_cloned w entity"
    and not_abortable: "isAbortable c \<noteq> Some True"
    and hook: "onBefore c = Some f"
    and raises: "snd (f (objects w entity)) = Some e"
    and signal: "is_AbortTransition e"
  shows "events (snd (transition sm entity T context w)) =
       events w
         @ [OnBeforeCalled entity,
            ConsoleLog ''Abort Transition triggered but skipped over transition {isAbortable:false} ''
              (Some e)]
         @ (if handler_of sm onError \<noteq> None
            then [OnErrorCalled e
                    \<lparr>ep_from = S, ep_to = T,
                     ep_message = (if message e = [] then ''Aborting transition.'' else message e),
                     ep_timestamp = clock w (ticks w), ep_meta = context\<rparr>]
            else []) \<and>
     filter is_OnAbortCalled (events (snd (transition sm entity T context w)))
       = filter is_OnAbortCalled (events w) \<and>
     objects (snd (transition sm entity T context w)) entity = fst (f (objects w entity)) \<and>
     next_ref (snd (transition sm entity T context w)) = Suc (next_ref w)"
proof -
  let ?w1 = "w\<lparr>objects := (objects w)(next_ref w := copy_of (objects w entity)),
               next_ref := Suc (next_ref w)\<rparr>"
  have allocated: "entity < next_ref w"
    using state by (simp add: in_state_def)
  have ob1: "objects ?w1 entity = objects w entity"
    using allocated by simp
  obtain w2 where pre: "preTransition sm S T (Own c) rw entity context ?w1 = (Some e, w2)"
    and w2: "events w2 = events w @ [OnBeforeCalled entity]"
      "objects w2 entity = fst (f (objects w entity))"
      "next_ref w2 = Suc (next_ref w)" "clock w2 = clock w" "ticks w2 = ticks w"
    using preTransition_onBefore_raises [OF js_in_own [OF edge] hook, of ?w1 entity e]
      raises ob1 by simp
  have body: "attempt sm S T rw entity context w = Some (Some e, w2)"
    by (simp add: attempt_cloned [OF snapshot] try_block_def js_get_own [OF edge] pre)
  have ni: "\<not> is_InvalidTransition e"
    using signal by (rule abort_not_invalid)
  have na: "\<not> (abortable (js_get rw T) \<and> is_AbortTransition e)"
    using not_abortable by (simp add: js_get_own [OF edge] abortable_def)
  have c1: "fst (catch_invalid sm S T context e w2) = None"
    by (simp add: catch_invalid_skips [OF ni])
  have c2: "fst (fst (catch_abort S T (js_get rw T) context entity (next_ref w) e
                        (snd (catch_invalid sm S T context e w2)))) = None"
    by (simp add: catch_abort_else [OF na])
  have tr: "snd (transition sm entity T context w) =
      snd (catch_block sm S T (js_get rw T) context entity (next_ref w) e w2)"
    by (simp add: transition_declared [OF state row] body)
  have w': "snd (catch_block sm S T (js_get rw T) context entity (next_ref w) e w2) =
      snd (catch_onError sm S T context e
             (emit (ConsoleLog ''Abort Transition triggered but skipped over transition {isAbortable:false} ''
                      (Some e)) w2))"
    unfolding catch_block_world(1) [OF c1 c2]
    by (simp add: catch_invalid_skips [OF ni] catch_abort_else [OF na] notice_def)
  have ev: "events (snd (transition sm entity T context w)) =
       events w
         @ [OnBeforeCalled entity,
            ConsoleLog ''Abort Transition triggered but skipped over transition {isAbortable:false} ''
              (Some e)]
         @ (if handler_of sm onError \<noteq> None
            then [OnErrorCalled e
                    \<lparr>ep_from = S, ep_to = T,
                     ep_message = (if message e = [] then ''Aborting transition.'' else message e),
                     ep_timestamp = clock w (ticks w), ep_meta = context\<rparr>]
            else [])"
    by (simp add: tr w' catch_onError_world emit_def w2 error_calls_def error_payload_at_def)
  have no_abort: "filter is_OnAbortCalled (events (snd (transition sm entity T context w)))
       = filter is_OnAbortCalled (events w)"
    by (simp add: ev)
  have ob: "objects (snd (transition sm entity T context w)) entity = fst (f (objects w entity))"
    by (simp add: tr w' catch_onError_world emit_def w2)
  have nr: "next_ref (snd (transition sm entity T context w)) = Suc (next_ref w)"
    by (simp add: tr w' catch_onError_world emit_def w2)
  show ?thesis
    using ev no_abort ob nr by simp
qed

text \<open>
  The edge that is not abortable: \<^verbatim>\<open>onBefore\<close>, the notice, \<^verbatim>\<open>onError\<close> with the signal;
  the processor is unchanged and one object was allocated.
\<close>

theorem abort_ignored_on_non_abortable_edge_witness:
  "events (snd (transition firm_machine 0 ''running'' JUndefined firm_world))
     = [OnBeforeCalled 0,
        ConsoleLog ''Abort Transition triggered but skipped over transition {isAbortable:false} ''
          (Some payment_abort),
        OnErrorCalled payment_abort
          \<lparr>ep_from = ''idle'', ep_to = ''running'', ep_message = ''Payment not received'',
           ep_timestamp = 0, ep_meta = JUndefined\<rparr>] \<and>
   objects (snd (transition firm_machine 0 ''running'' JUndefined firm_world)) 0 = processor \<and>
   next_ref (snd (transition firm_machine 0 ''running'' JUndefined firm_world)) = 2"
proof -
  have state: "in_state firm_machine firm_world 0 ''idle''"
    by (simp add: in_state_def fixture_defs example_defs)
  have row: "map_of (table_view firm_world (n_transitions (config firm_machine))) ''idle''
      = Some [(''running'', firm_edge)]"
    by (simp add: fixture_defs example_defs)
  have edge: "map_of [(''running'', firm_edge)] ''running'' = Some firm_edge"
    by simp
  have snapshot: "can_be_cloned firm_world 0"
    by (simp add: can_be_cloned_def fixture_defs example_defs)
  have not_abortable: "isAbortable firm_edge \<noteq> Some True"
    by (simp add: firm_edge_def plain_edge_def)
  have hook: "onBefore firm_edge = Some (\<lambda>ob. (ob, Some payment_abort))"
    by (simp add: firm_edge_def plain_edge_def)
  have raises: "snd ((\<lambda>ob. (ob, Some payment_abort)) (objects firm_world 0)) = Some payment_abort"
    by simp
  have signal: "is_AbortTransition payment_abort"
    by (simp add: payment_abort_def new_AbortTransition_def)
  have w: "events firm_world = []" "objects firm_world 0 = processor" "next_ref firm_world = 1"
    "clock firm_world (ticks firm_world) = 0"
    by (simp_all add: fixture_defs example_defs)
  have configured: "handler_of firm_machine onError \<noteq> None"
    by (simp add: handler_of_def fixture_defs example_defs)
  have msg: "message payment_abort = ''Payment not received''"
    by (simp add: payment_abort_def new_AbortTransition_def message_or_def)
  from abort_ignored_on_non_abortable_edge
    [OF state row edge snapshot not_abortable hook raises signal, of JUndefined]
  show ?thesis
    by (simp add: w configured msg)
qed

section \<open>onError\<close>

text \<open>
  Claim C7, as stated, fails: a handler of the catch block is called outside any \<^verbatim>\<open>try\<close>.
  With \<^verbatim>\<open>onError\<close> configured and an \<^verbatim>\<open>onInvalidTransition\<close> that throws, the call for an
  undeclared target rejects with what that handler threw, and \<^verbatim>\<open>onError\<close> is not called.
\<close>

theorem onError_skipped_when_handler_throws:
  "handler_of fragile_machine onError \<noteq> None \<and>
   fst (transition fragile_machine 0 ''nowhere'' JUndefined fragile_world)
     = Rejected (Error ''listener failed'') \<and>
   filter is_OnErrorCalled
     (events (snd (transition fragile_machine 0 ''nowhere'' JUndefined fragile_world))) = []"
  by (simp add: run_defs fixture_defs example_defs)

text \<open>
  Claim C7, amended. Let the state of the entity be declared, let the \<^verbatim>\<open>try\<close> body throw
  \<open>e\<close> and leave the world \<open>w2\<close>, let \<^verbatim>\<open>onError\<close> be configured, and let the handler that
  runs before it (\<^verbatim>\<open>onInvalidTransition\<close>, or \<^verbatim>\<open>onAbort\<close> of the edge) return. Then the
  catch block adds, after the events of the \<^verbatim>\<open>try\<close> body: the call of
  \<^verbatim>\<open>onInvalidTransition\<close> if \<open>e\<close> is that signal; the call of \<^verbatim>\<open>onAbort\<close> if the edge is
  abortable and \<open>e\<close> is the abort signal, the notice otherwise; and last the call of
  \<^verbatim>\<open>onError\<close> with \<open>e\<close> and the payload whose \<^verbatim>\<open>from\<close> is \<open>S\<close>, whose \<^verbatim>\<open>to\<close> is \<open>T\<close>, whose
  \<^verbatim>\<open>message\<close> is the message of \<open>e\<close> (or \<^verbatim>\<open>Aborting transition.\<close> when that is empty),
  whose \<^verbatim>\<open>timestamp\<close> is the time of that statement and whose \<^verbatim>\<open>meta\<close> is the context.
  That call is the only call of \<^verbatim>\<open>onError\<close> the call of \<^verbatim>\<open>transition\<close> adds.
\<close>

theorem onError_called_once_after_handler:
  assumes state: "in_state sm w entity S"
    and row: "map_of (table_view w (n_transitions (config sm))) S = Some rw"
    and failure: "attempt sm S T rw entity context w = Some (Some e, w2)"
    and configured: "handler_of sm onError \<noteq> None"
    and invalid_returns: "\<forall>h p. handler_of sm onInvalidTransition = Some h \<longrightarrow> h p = None"
    and abort_returns:
      "\<forall>c f p. js_get rw T = Own c \<longrightarrow> onAbort c = Some (Supplied f) \<longrightarrow> f p = None"
    and now: "now = clock w2 (if is_InvalidTransition e \<or>
                                 abortable (js_get rw T) \<and> is_AbortTransition e
                               then Suc (ticks w2) else ticks w2)"
  shows "events (snd (transition sm entity T context w)) =
       events w2
         @ invalid_calls sm S T context e (clock w2 (ticks w2))
         @ (if abortable (js_get rw T) \<and> is_AbortTransition e
            then abort_calls (js_get rw T) S T context e (clock w2 (ticks w2))
            else [ConsoleLog ''Abort Transition triggered but skipped over transition {isAbortable:false} ''
                    (Some e)])
         @ [OnErrorCalled e
              \<lparr>ep_from = S, ep_to = T,
               ep_message = (if message e = [] then ''Aborting transition.'' else message e),
               ep_timestamp = now, ep_meta = context\<rparr>] \<and>
     filter is_OnErrorCalled (events (snd (transition sm entity T context w)))
       = filter is_OnErrorCalled (events w)
           @ [OnErrorCalled e
                \<lparr>ep_from = S, ep_to = T,
                 ep_message = (if message e = [] then ''Aborting transition.'' else message e),
                 ep_timestamp = now, ep_meta = context\<rparr>]"
proof -
  let ?nt = "js_get rw T"
  let ?call = "OnErrorCalled e
                \<lparr>ep_from = S, ep_to = T,
                 ep_message = (if message e = [] then ''Aborting transition.'' else message e),
                 ep_timestamp = now, ep_meta = context\<rparr>"
  have allocated: "entity < next_ref w"
    using state by (simp add: in_state_def)
  have kept: "can_be_cloned w2 (next_ref w)"
    by (rule snapshot_kept(2) [OF allocated failure])
  have c1: "fst (catch_invalid sm S T context e w2) = None"
    by (rule catch_invalid_returns [OF invalid_returns])
  have c2: "fst (fst (catch_abort S T ?nt context entity (next_ref w) e
                        (snd (catch_invalid sm S T context e w2)))) = None"
    by (rule catch_abort_returns [OF abort_returns]) (simp add: kept)
  have c3: "abortable ?nt \<and> is_AbortTransition e \<longrightarrow> can_be_cloned w2 (next_ref w)"
    using kept by simp
  have tr: "snd (transition sm entity T context w) =
      snd (catch_block sm S T ?nt context entity (next_ref w) e w2)"
    by (simp add: transition_declared [OF state row] failure)
  have ev: "events (snd (transition sm entity T context w)) =
       events w2
         @ invalid_calls sm S T context e (clock w2 (ticks w2))
         @ (if abortable ?nt \<and> is_AbortTransition e
            then abort_calls ?nt S T context e (clock w2 (ticks w2))
            else [ConsoleLog ''Abort Transition triggered but skipped over transition {isAbortable:false} ''
                    (Some e)])
         @ [?call]"
    unfolding tr catch_block_events [OF c1 c2 c3]
    using configured by (simp add: error_calls_def error_payload_at_def now notice_def)
  have before: "filter is_OnErrorCalled (events w2) = filter is_OnErrorCalled (events w)"
    using try_block_filter [of is_OnErrorCalled sm S T ?nt rw entity "context"
        "w\<lparr>objects := (objects w)(next_ref w := copy_of (objects w entity)),
           next_ref := Suc (next_ref w)\<rparr>"] failure
    by (simp add: attempt_cloned [OF attempt_Some_cloned [OF failure]])
  have specific: "filter is_OnErrorCalled (invalid_calls sm S T context e d) = []"
    "filter is_OnErrorCalled (abort_calls ?nt S T context e d) = []" for d
    by (simp_all add: invalid_calls_def abort_calls_def
        split: lookup.splits option.splits abort_handler.splits)
  have once: "filter is_OnErrorCalled (events (snd (transition sm entity T context w)))
       = filter is_OnErrorCalled (events w) @ [?call]"
    by (simp add: ev before specific)
  show ?thesis
    using ev once by blast
qed

text \<open>
  The lifecycle machine and an undeclared target: \<^verbatim>\<open>onInvalidTransition\<close>, the notice, then
  the one call of \<^verbatim>\<open>onError\<close>, with the signal and its payload.
\<close>

theorem onError_called_once_after_handler_witness:
  "events (snd (transition lifecycle_machine 0 ''nowhere'' JUndefined lifecycle_world))
     = [OnInvalidTransitionCalled
          \<lparr>ep_from = ''idle'', ep_to = ''nowhere'', ep_message = ''Invalid Transaction'',
           ep_timestamp = 1, ep_meta = JUndefined\<rparr>,
        ConsoleLog ''Abort Transition triggered but skipped over transition {isAbortable:false} ''
          (Some (InvalidTransition ''Invalid Transaction''
                   \<lparr>tp_from = Some ''idle'', tp_to = Some ''nowhere'',
                    tp_message = Some ''Invalid Transaction'', tp_timestamp = Some (Some 0),
                    tp_meta = JUndefined\<rparr>)),
        OnErrorCalled
          (InvalidTransition ''Invalid Transaction''
             \<lparr>tp_from = Some ''idle'', tp_to = Some ''nowhere'',
              tp_message = Some ''Invalid Transaction'', tp_timestamp = Some (Some 0),
              tp_meta = JUndefined\<rparr>)
          \<lparr>ep_from = ''idle'', ep_to = ''nowhere'', ep_message = ''Invalid Transaction'',
           ep_timestamp = 2, ep_meta = JUndefined\<rparr>] \<and>
   filter is_OnErrorCalled
     (events (snd (transition lifecycle_machine 0 ''nowhere'' JUndefined lifecycle_world)))
     = [OnErrorCalled
          (InvalidTransition ''Invalid Transaction''
             \<lparr>tp_from = Some ''idle'', tp_to = Some ''nowhere'',
              tp_message = Some ''Invalid Transaction'', tp_timestamp = Some (Some 0),
              tp_meta = JUndefined\<rparr>)
          \<lparr>ep_from = ''idle'', ep_to = ''nowhere'', ep_message = ''Invalid Transaction'',
           ep_timestamp = 2, ep_meta = JUndefined\<rparr>]"
proof -
  let ?rw = "[(''running'', lifecycle_edge)]"
  let ?e = "invalid_from_idle ''nowhere''"
  let ?w2 = "snd (the (attempt lifecycle_machine ''idle'' ''nowhere'' ?rw 0 JUndefined
                         lifecycle_world))"
  have state: "in_state lifecycle_machine lifecycle_world 0 ''idle''"
    by (simp add: in_state_def fixture_defs example_defs)
  have row: "map_of (table_view lifecycle_world (n_transitions (config lifecycle_machine))) ''idle''
      = Some ?rw"
    by (simp add: fixture_defs example_defs)
  have "map_option fst (attempt lifecycle_machine ''idle'' ''nowhere'' ?rw 0 JUndefined
                          lifecycle_world) = Some (Some ?e)"
    by (simp add: attempt_def run_defs fixture_defs example_defs)
  then have failure: "attempt lifecycle_machine ''idle'' ''nowhere'' ?rw 0 JUndefined
      lifecycle_world = Some (Some ?e, ?w2)"
    by (cases "attempt lifecycle_machine ''idle'' ''nowhere'' ?rw 0 JUndefined lifecycle_world")
       auto
  have configured: "handler_of lifecycle_machine onError \<noteq> None"
    by (simp add: handler_of_def fixture_defs example_defs)
  have h1: "\<forall>h p. handler_of lifecycle_machine onInvalidTransition = Some h \<longrightarrow> h p = None"
    by (auto simp: handler_of_def fixture_defs example_defs)
  have h2: "\<forall>c f p. js_get ?rw ''nowhere'' = Own c \<longrightarrow> onAbort c = Some (Supplied f) \<longrightarrow> f p = None"
    by (simp add: js_get_def object_prototype_names_def)
  have w2: "events ?w2 = []" "ticks ?w2 = 1" "clock ?w2 = (\<lambda>n. n)"
    by (simp_all add: attempt_def run_defs fixture_defs example_defs)
  have e: "is_InvalidTransition ?e" "message ?e = ''Invalid Transaction''"
    by (simp_all add: invalid_from_idle_def)
  have na: "\<not> abortable (js_get ?rw ''nowhere'')"
    by (simp add: js_get_def object_prototype_names_def abortable_def)
  have inv: "invalid_calls lifecycle_machine ''idle'' ''nowhere'' JUndefined ?e (Suc 0)
      = [OnInvalidTransitionCalled
           \<lparr>ep_from = ''idle'', ep_to = ''nowhere'', ep_message = ''Invalid Transaction'',
            ep_timestamp = 1, ep_meta = JUndefined\<rparr>]"
    by (simp add: invalid_calls_def error_payload_at_def e handler_of_def fixture_defs
        lifecycle_machine_def)
  have ev0: "events lifecycle_world = []"
    by (simp add: fixture_defs example_defs)
  have lit: "?e = InvalidTransition ''Invalid Transaction''
                   \<lparr>tp_from = Some ''idle'', tp_to = Some ''nowhere'',
                    tp_message = Some ''Invalid Transaction'', tp_timestamp = Some (Some 0),
                    tp_meta = JUndefined\<rparr>"
    by (simp add: invalid_from_idle_def)
  from onError_called_once_after_handler [OF state row failure configured h1 h2 refl]
  show ?thesis
    unfolding lit [symmetric]
    by (simp add: w2 e na inv ev0 numeral_2_eq_2)
qed

section \<open>The default onAbort\<close>




section \<open>The notice\<close>

text \<open>
  Claim C9, as stated, fails where the handler of the first statement throws: the
  \<^verbatim>\<open>try\<close> body raised InvalidTransition, which the abort branch does not handle, yet the
  only event of the call is the call of \<^verbatim>\<open>onInvalidTransition\<close>; no notice is logged.
\<close>

theorem notice_skipped_when_handler_throws:
  "map_option fst
     (attempt fragile_machine ''idle'' ''nowhere'' [(''running'', lifecycle_edge)] 0 JUndefined
        fragile_world) = Some (Some (invalid_from_idle ''nowhere'')) \<and>
   events (snd (transition fragile_machine 0 ''nowhere'' JUndefined fragile_world))
     = [OnInvalidTransitionCalled
          \<lparr>ep_from = ''idle'', ep_to = ''nowhere'', ep_message = ''Invalid Transaction'',
           ep_timestamp = 1, ep_meta = JUndefined\<rparr>]"
  by (simp add: attempt_def run_defs fixture_defs example_defs)

text \<open>
  Claim C9, amended. Let the state of the entity be declared, let the \<^verbatim>\<open>try\<close> body throw
  \<open>e\<close> and leave the world \<open>w2\<close>, and let \<^verbatim>\<open>onInvalidTransition\<close> return. If the abort
  branch is not taken (the edge is not abortable or \<open>e\<close> is not the abort signal), the
  engine logs the line
  \<^verbatim>\<open>Abort Transition triggered but skipped over transition {isAbortable:false} \<close>
  with \<open>e\<close>, between the call of \<^verbatim>\<open>onInvalidTransition\<close> (if \<open>e\<close> is that signal) and the
  call of \<^verbatim>\<open>onError\<close>; whether \<open>e\<close> is an abort signal plays no part.
\<close>

theorem notice_logged_outside_abort_branch:
  assumes state: "in_state sm w entity S"
    and row: "map_of (table_view w (n_transitions (config sm))) S = Some rw"
    and failure: "attempt sm S T rw entity context w = Some (Some e, w2)"
    and other_branch: "\<not> (abortable (js_get rw T) \<and> is_AbortTransition e)"
    and invalid_returns: "\<forall>h p. handler_of sm onInvalidTransition = Some h \<longrightarrow> h p = None"
  shows "events (snd (transition sm entity T context w)) =
       events w2
         @ invalid_calls sm S T context e (clock w2 (ticks w2))
         @ [ConsoleLog ''Abort Transition triggered but skipped over transition {isAbortable:false} ''
              (Some e)]
         @ error_calls sm S T context e
             (clock w2 (if is_InvalidTransition e then Suc (ticks w2) else ticks w2))"
proof -
  let ?nt = "js_get rw T"
  have c1: "fst (catch_invalid sm S T context e w2) = None"
    by (rule catch_invalid_returns [OF invalid_returns])
  have c2: "fst (fst (catch_abort S T ?nt context entity (next_ref w) e
                        (snd (catch_invalid sm S T context e w2)))) = None"
    by (simp add: catch_abort_else [OF other_branch])
  have c3: "abortable ?nt \<and> is_AbortTransition e \<longrightarrow> can_be_cloned w2 (next_ref w)"
    using other_branch by blast
  have tr: "snd (transition sm entity T context w) =
      snd (catch_block sm S T ?nt context entity (next_ref w) e w2)"
    by (simp add: transition_declared [OF state row] failure)
  show ?thesis
    unfolding tr catch_block_events [OF c1 c2 c3]
    using other_branch by (auto simp: notice_def)
qed

text \<open>
  An error of \<^verbatim>\<open>onAfter\<close> on a plain edge, raised after the commit and not an abort
  signal: the notice is logged all the same.
\<close>

theorem notice_logged_outside_abort_branch_witness:
  "events (snd (transition hasty_machine 0 ''running'' JUndefined hasty_world))
     = [BeforeTransitionCalled 0
          \<lparr>p_from = ''idle'', p_to = ''running'', p_actor = JUndefined, p_meta = JUndefined,
           p_timestamp = 0\<rparr>,
        StateWritten 0 ''status'' ''running'',
        OnAfterCalled 0,
        ConsoleLog ''Abort Transition triggered but skipped over transition {isAbortable:false} ''
          (Some (Error ''onAfter error'')),
        OnErrorCalled (Error ''onAfter error'')
          \<lparr>ep_from = ''idle'', ep_to = ''running'', ep_message = ''onAfter error'',
           ep_timestamp = 1, ep_meta = JUndefined\<rparr>]"
proof -
  let ?rw = "[(''running'', hasty_edge)]"
  let ?w2 = "snd (the (attempt hasty_machine ''idle'' ''running'' ?rw 0 JUndefined hasty_world))"
  have state: "in_state hasty_machine hasty_world 0 ''idle''"
    by (simp add: in_state_def fixture_defs example_defs)
  have row: "map_of (table_view hasty_world (n_transitions (config hasty_machine))) ''idle''
      = Some ?rw"
    by (simp add: fixture_defs example_defs)
  have "map_option fst (attempt hasty_machine ''idle'' ''running'' ?rw 0 JUndefined hasty_world)
      = Some (Some (Error ''onAfter error''))"
    by (simp add: attempt_def run_defs fixture_defs example_defs)
  then have failure: "attempt hasty_machine ''idle'' ''running'' ?rw 0 JUndefined hasty_world
      = Some (Some (Error ''onAfter error''), ?w2)"
    by (cases "attempt hasty_machine ''idle'' ''running'' ?rw 0 JUndefined hasty_world") auto
  have other: "\<not> (abortable (js_get ?rw ''running'') \<and> is_AbortTransition (Error ''onAfter error''))"
    by simp
  have h1: "\<forall>h p. handler_of hasty_machine onInvalidTransition = Some h \<longrightarrow> h p = None"
    by (auto simp: handler_of_def fixture_defs example_defs)
  have w2: "events ?w2 = [BeforeTransitionCalled 0
          \<lparr>p_from = ''idle'', p_to = ''running'', p_actor = JUndefined, p_meta = JUndefined,
           p_timestamp = 0\<rparr>,
        StateWritten 0 ''status'' ''running'', OnAfterCalled 0]"
    "ticks ?w2 = 1" "clock ?w2 = (\<lambda>n. n)"
    by (simp_all add: attempt_def run_defs fixture_defs example_defs)
  have calls: "invalid_calls hasty_machine ''idle'' ''running'' JUndefined (Error ''onAfter error'') d
      = []"
    "error_calls hasty_machine ''idle'' ''running'' JUndefined (Error ''onAfter error'') d
      = [OnErrorCalled (Error ''onAfter error'')
           \<lparr>ep_from = ''idle'', ep_to = ''running'', ep_message = ''onAfter error'',
            ep_timestamp = d, ep_meta = JUndefined\<rparr>]" for d
    by (simp_all add: invalid_calls_def error_calls_def error_payload_at_def handler_of_def
        fixture_defs example_defs)
  from notice_logged_outside_abort_branch [OF state row failure other h1]
  show ?thesis
    by (simp add: w2 calls)
qed

section \<open>The caller's configuration\<close>



end
